theory Spec2Isabelle
  imports Main "HOL-Library.AList"
begin

unbundle bit_operations_syntax

section \<open>SerialDispatch: data model\<close>

text \<open>
  The development embeds \<^verbatim>\<open>serialdispatch/serialdispatch.py\<close>. Python integers are
  unbounded, so they are \<open>int\<close>; \<open>AND\<close>, \<open>push_bit\<close> and \<open>drop_bit\<close> on \<open>int\<close> are
  Python's \<^verbatim>\<open>&\<close>, \<^verbatim>\<open><<\<close> and \<^verbatim>\<open>>>\<close> (two's complement of unbounded width).
  A Python \<^verbatim>\<open>str\<close> is a sequence of Unicode code points, so it is a list of naturals;
  \<open>len\<close> of a string is the length of that list. The names of the format
  specifiers are ASCII literals of the source and are kept as HOL strings.
  A message is a Python list of integers (\<^verbatim>\<open>msg = []\<close>, line 92), not a byte
  string: nothing in the source bounds its elements by 255.
\<close>

type_synonym pystr = "nat list"

text \<open>The exceptions the modelled statements can raise.\<close>

datatype error =
    KeyError | IndexError | TypeError | AttributeError | ValueError | UnicodeEncodeError

text \<open>An element of a data row handed to \<^verbatim>\<open>publish\<close>: an integer or a string.\<close>

datatype pyval = PInt int | PStr pystr

text \<open>
  A value of \<^verbatim>\<open>topical_data\<close>: the text of a STRING frame (line 184) or the list
  of decoded rows (lines 188 to 275).
\<close>

datatype stored = Text pystr | Rows "int list list"

definition bindE :: "error + 'a \<Rightarrow> ('a \<Rightarrow> error + 'b) \<Rightarrow> error + 'b" where
  "bindE m f = (case m of Inl e \<Rightarrow> Inl e | Inr x \<Rightarrow> f x)"

text \<open>Line 15: the class attribute \<^verbatim>\<open>format_specifiers\<close>, a dict in insertion order.\<close>

definition format_specifiers :: "(int \<times> string) list" where
  "format_specifiers =
     [(0, ''NONE''), (1, ''STRING''), (2, ''U8''), (3, ''S8''), (4, ''U16''),
      (5, ''S16''), (6, ''U32''), (7, ''S32''), (8, ''FLOAT'')]"

text \<open>Lines 81 to 84: the dict reversed inside \<^verbatim>\<open>publish\<close>, from name to code.\<close>

definition reversed_specifiers :: "(string \<times> int) list" where
  "reversed_specifiers = map (\<lambda>(key, v). (v, key)) format_specifiers"

text \<open>\<^verbatim>\<open>d[k]\<close> on a dict: \<^verbatim>\<open>KeyError\<close> when the key is absent.\<close>

definition getitem :: "('k \<times> 'v) list \<Rightarrow> 'k \<Rightarrow> error + 'v" where
  "getitem d k = (case map_of d k of None \<Rightarrow> Inl KeyError | Some v \<Rightarrow> Inr v)"

text \<open>\<^verbatim>\<open>xs[i]\<close> on a list with a non-negative index: \<^verbatim>\<open>IndexError\<close> out of range.\<close>

definition index :: "'a list \<Rightarrow> nat \<Rightarrow> error + 'a" where
  "index xs i = (if i < length xs then Inr (xs ! i) else Inl IndexError)"

section \<open>UTF-8 encoding of a string\<close>

text \<open>
  \<^verbatim>\<open>bytearray(s, 'utf-8')\<close> on a \<^verbatim>\<open>str\<close>: one to four bytes per code point; a
  surrogate cannot be encoded and raises. A code point from 0x110000 on is no part of
  any Python string; the model rejects it the same way.
\<close>

definition utf8_char :: "nat \<Rightarrow> error + int list" where
  "utf8_char c =
     (if c < 128 then Inr [int c]
      else if c < 2048 then Inr [192 + int (c div 64), 128 + int (c mod 64)]
      else if c < 65536 then
        (if 55296 \<le> c \<and> c \<le> 57343 then Inl UnicodeEncodeError
         else Inr [224 + int (c div 4096), 128 + int ((c div 64) mod 64), 128 + int (c mod 64)])
      else if c < 1114112 then
        Inr [240 + int (c div 262144), 128 + int ((c div 4096) mod 64),
             128 + int ((c div 64) mod 64), 128 + int (c mod 64)]
      else Inl UnicodeEncodeError)"

fun utf8 :: "pystr \<Rightarrow> error + int list" where
  "utf8 [] = Inr []"
| "utf8 (c # cs) =
     bindE (utf8_char c) (\<lambda>bs. bindE (utf8 cs) (\<lambda>rest. Inr (bs @ rest)))"

text \<open>\<^verbatim>\<open>bytearray(v, 'utf-8')\<close> on an integer is a \<^verbatim>\<open>TypeError\<close>.\<close>

fun str_bytes :: "pyval \<Rightarrow> error + int list" where
  "str_bytes (PStr s) = utf8 s"
| "str_bytes (PInt n) = Inl TypeError"

section \<open>publish: the encoder\<close>

text \<open>
  Lines 86 to 89. The character count of \<^verbatim>\<open>data[0][0]\<close> is taken only when the
  format list is exactly \<^verbatim>\<open>['STRING']\<close>; every other list takes the element count
  of \<^verbatim>\<open>data[0]\<close>.
\<close>

definition row_length :: "string list \<Rightarrow> pyval list list \<Rightarrow> error + int" where
  "row_length format_specifier data =
     (if format_specifier = [''STRING''] then
        bindE (index data 0) (\<lambda>row. bindE (index row 0) (\<lambda>v.
          case v of PStr s \<Rightarrow> Inr (int (length s)) | PInt n \<Rightarrow> Inl TypeError))
      else bindE (index data 0) (\<lambda>row. Inr (int (length row))))"

text \<open>
  Lines 104 to 109: the packed specifier codes. An even position appends the low
  nibble; an odd position adds the code, shifted by four, to the last element.
\<close>

fun pack_specifiers :: "int list \<Rightarrow> nat \<Rightarrow> string list \<Rightarrow> error + int list" where
  "pack_specifiers msg i [] = Inr msg"
| "pack_specifiers msg i (e # es) =
     bindE (getitem reversed_specifiers e) (\<lambda>fs.
       if i AND 1 = 0 then pack_specifiers (msg @ [fs AND 15]) (Suc i) es
       else if msg = [] then Inl IndexError
       else pack_specifiers (butlast msg @ [last msg + push_bit 4 (fs AND 15)]) (Suc i) es)"

text \<open>
  Lines 118, 122 and 129: \<^verbatim>\<open>[x if x > 0 else x + m for x in data[i]]\<close>. The
  comparison is strict, so the element 0 takes the offset as the negative ones do.
  Comparing a string with 0 is a \<^verbatim>\<open>TypeError\<close>.
\<close>

fun unsigned_data :: "int \<Rightarrow> pyval list \<Rightarrow> error + int list" where
  "unsigned_data m [] = Inr []"
| "unsigned_data m (PInt x # xs) =
     bindE (unsigned_data m xs) (\<lambda>ys. Inr ((if x > 0 then x else x + m) # ys))"
| "unsigned_data m (PStr s # xs) = Inl TypeError"

text \<open>Lines 125 and 126, and 132 to 135: the little-endian bytes of one element.\<close>

definition bytes16 :: "int \<Rightarrow> int list" where
  "bytes16 x = [x AND 255, drop_bit 8 (x AND 65280)]"

definition bytes32 :: "int \<Rightarrow> int list" where
  "bytes32 x = [x AND 255, drop_bit 8 (x AND 65280),
                drop_bit 16 (x AND 16711680), drop_bit 24 (x AND 4278190080)]"

text \<open>
  Lines 112 to 138: the body of the payload loop for the specifier \<open>e\<close> at
  position \<open>i\<close>. The second component collects the lines written to the logger.
  A STRING or NONE specifier always emits \<^verbatim>\<open>data[0][0]\<close>; FLOAT, like any other
  name, logs and emits nothing.
\<close>

definition encode_row ::
  "pyval list list \<Rightarrow> nat \<Rightarrow> string \<Rightarrow> int list \<Rightarrow> string list
     \<Rightarrow> error + (int list \<times> string list)" where
  "encode_row data i e msg lg =
     (if e = ''NONE'' \<or> e = ''STRING'' then
        bindE (index data 0) (\<lambda>row. bindE (index row 0) (\<lambda>v.
        bindE (str_bytes v) (\<lambda>str_array. Inr (msg @ str_array, lg))))
      else if e = ''U8'' \<or> e = ''S8'' then
        bindE (index data i) (\<lambda>row. bindE (unsigned_data 256 row) (\<lambda>unsigned_data8.
          Inr (msg @ unsigned_data8, lg)))
      else if e = ''U16'' \<or> e = ''S16'' then
        bindE (index data i) (\<lambda>row. bindE (unsigned_data 65536 row) (\<lambda>unsigned_data16.
          Inr (msg @ concat (map bytes16 unsigned_data16), lg)))
      else if e = ''U32'' \<or> e = ''S32'' then
        bindE (index data i) (\<lambda>row. bindE (unsigned_data 4294967296 row) (\<lambda>unsigned_data32.
          Inr (msg @ concat (map bytes32 unsigned_data32), lg)))
      else Inr (msg, lg @ [''width not supported: '' @ e]))"

text \<open>Line 111: the loop over \<^verbatim>\<open>enumerate(format_specifier)\<close>.\<close>

fun encode_rows ::
  "pyval list list \<Rightarrow> nat \<Rightarrow> string list \<Rightarrow> int list \<Rightarrow> string list
     \<Rightarrow> error + (int list \<times> string list)" where
  "encode_rows data i [] msg lg = Inr (msg, lg)"
| "encode_rows data i (e # es) msg lg =
     bindE (encode_row data i e msg lg) (\<lambda>(msg', lg'). encode_rows data (Suc i) es msg' lg')"

text \<open>
  Lines 80 to 138: the message \<^verbatim>\<open>publish\<close> builds, with the logged lines. The
  statements run in the source's order, so the first exception is the source's.
\<close>

definition encode ::
  "pystr \<Rightarrow> pyval list list \<Rightarrow> string list \<Rightarrow> error + (int list \<times> string list)" where
  "encode topic data format_specifier =
     bindE (row_length format_specifier data) (\<lambda>len.
     bindE (utf8 topic) (\<lambda>topic_bytes.
     bindE (pack_specifiers
              (topic_bytes @ [0, int (length data), len AND 255, drop_bit 8 (len AND 65280)])
              0 format_specifier) (\<lambda>msg.
       encode_rows data 0 format_specifier msg [])))"

section \<open>The state of the dispatcher\<close>

text \<open>
  Modelled from the spec: the class \<^verbatim>\<open>Frame\<close> of \<^verbatim>\<open>serialdispatch/frame.py\<close> is
  imported at line 7 and is not among the sources. The specification gives its
  interface (section 6): a send queue that \<^verbatim>\<open>push_tx_message\<close> appends to, and a
  queue of received messages of which \<^verbatim>\<open>pull_rx_message\<close> removes and returns the
  oldest while \<^verbatim>\<open>rx_is_available\<close> tells whether one is buffered.
\<close>

record frame =
  tx_messages :: "int list list"
  rx_messages :: "int list list"

definition push_tx_message :: "int list \<Rightarrow> frame \<Rightarrow> frame" where
  "push_tx_message msg f = f\<lparr>tx_messages := tx_messages f @ [msg]\<rparr>"

text \<open>
  \<^verbatim>\<open>topical_data\<close> and \<^verbatim>\<open>subscribers\<close> are attributes of the class (lines 17 and
  18): no method ever binds an attribute of either name on an instance, every access
  \<^verbatim>\<open>self.topical_data\<close> or \<^verbatim>\<open>self.subscribers\<close> resolves to the one dict of the
  class, and every update mutates that dict in place. The state therefore holds one
  dict of each for the whole process. What \<^verbatim>\<open>__init__\<close> binds on the instance is
  per instance: of that, the \<^verbatim>\<open>Frame\<close> is kept, as a map from the address of the
  instance (the parameter \<open>self\<close> of the methods below).

  A dict keeps its keys in insertion order, which the loop of line 286 follows, so
  both dicts are association lists with distinct keys. The values of \<^verbatim>\<open>subscribers\<close>
  are list objects that are changed in place (\<^verbatim>\<open>append\<close> at line 44, \<^verbatim>\<open>remove\<close> at
  line 54) and that the loop of line 292 walks while callbacks run, so the identity
  of a list matters: the dict holds the address of the list, \<open>lists\<close> is the heap of
  the list objects, and \<open>allocated\<close> is the next free address, taken by the list
  display of line 42. The lines written to the logger are collected in \<open>logged\<close>.
\<close>

record 'c world =
  topical_data :: "(pystr \<times> stored) list"
  subscribers :: "(pystr \<times> nat) list"
  lists :: "nat \<Rightarrow> 'c list"
  allocated :: nat
  frames :: "nat \<Rightarrow> frame"
  logged :: "string list"

text \<open>
  A callback is code of the caller. It is a value of the type \<open>'c\<close>, equal to itself
  only (as \<^verbatim>\<open>remove\<close> compares functions), and what calling it does is given by a
  function of this type, a parameter of the dispatch: the call may raise, and it may
  change the state in any way, as by calling \<^verbatim>\<open>subscribe\<close> or \<^verbatim>\<open>unsubscribe\<close>.
\<close>

type_synonym 'c behaviour = "'c \<Rightarrow> 'c world \<Rightarrow> error + 'c world"

text \<open>
  The calls made, in order: each callback with the state it was called in. The
  dispatch returns them beside the state; they are no part of the program's state.
\<close>

type_synonym 'c calls = "('c \<times> 'c world) list"

text \<open>\<^verbatim>\<open>d.pop(k)\<close> on a dict: \<^verbatim>\<open>KeyError\<close> when the key is absent.\<close>

definition pop :: "'k \<Rightarrow> ('k \<times> 'v) list \<Rightarrow> error + ('k \<times> 'v) list" where
  "pop k d = (case map_of d k of None \<Rightarrow> Inl KeyError | Some v \<Rightarrow> Inr (AList.delete k d))"

text \<open>
  The dicts as an instance reads them: attribute lookup falls through to the class.
  The registry is read with every list object replaced by its content.
\<close>

definition self_subscribers :: "'c world \<Rightarrow> nat \<Rightarrow> (pystr \<times> 'c list) list" where
  "self_subscribers w self = map (\<lambda>(topic, a). (topic, lists w a)) (subscribers w)"

definition self_topical_data :: "'c world \<Rightarrow> nat \<Rightarrow> (pystr \<times> stored) list" where
  "self_topical_data w self = topical_data w"

text \<open>
  Lines 41 to 44: a new list object for a topic that is no key, \<^verbatim>\<open>append\<close> on the
  list object of the topic otherwise.
\<close>

definition subscribe :: "nat \<Rightarrow> pystr \<Rightarrow> 'c \<Rightarrow> 'c world \<Rightarrow> 'c world" where
  "subscribe self topic callback w =
     (case map_of (subscribers w) topic of
        None \<Rightarrow>
          w\<lparr>subscribers := AList.update topic (allocated w) (subscribers w),
            lists := (lists w)(allocated w := [callback]),
            allocated := Suc (allocated w)\<rparr>
      | Some a \<Rightarrow> w\<lparr>lists := (lists w)(a := lists w a @ [callback])\<rparr>)"

text \<open>
  Lines 53 to 57. \<^verbatim>\<open>self.subscribers[topic]\<close> raises \<^verbatim>\<open>KeyError\<close> for a topic that
  is no key; \<^verbatim>\<open>remove\<close> deletes the first equal element of the list object, in
  place, and raises \<^verbatim>\<open>ValueError\<close> when there is none; the topic is popped from
  the dict when its list is then empty.
\<close>

definition unsubscribe :: "nat \<Rightarrow> pystr \<Rightarrow> 'c \<Rightarrow> 'c world \<Rightarrow> error + 'c world" where
  "unsubscribe self topic callback w =
     bindE (getitem (subscribers w) topic) (\<lambda>a.
     bindE (if lists w a \<noteq> [] then
              (if callback \<in> set (lists w a)
               then Inr (w\<lparr>lists := (lists w)(a := remove1 callback (lists w a))\<rparr>)
               else Inl ValueError)
            else Inr w) (\<lambda>w'.
       if length (lists w' a) = 0
       then Inr (w'\<lparr>subscribers := AList.delete topic (subscribers w')\<rparr>)
       else Inr w'))"

text \<open>Line 68.\<close>

definition get_data :: "nat \<Rightarrow> pystr \<Rightarrow> 'c world \<Rightarrow> error + stored" where
  "get_data self topic w = getitem (topical_data w) topic"

text \<open>Lines 70 to 143: the message is built, pushed to the frame of the instance, returned.\<close>

definition publish ::
  "nat \<Rightarrow> pystr \<Rightarrow> pyval list list \<Rightarrow> string list \<Rightarrow> 'c world
     \<Rightarrow> error + (int list \<times> 'c world)" where
  "publish self topic data format_specifier w =
     bindE (encode topic data format_specifier) (\<lambda>(msg, lg).
       Inr (msg, w\<lparr>frames := (frames w)(self := push_tx_message msg (frames w self)),
                    logged := logged w @ lg\<rparr>))"

section \<open>run: the decoder\<close>

text \<open>
  Lines 152 to 156: the index of the first 0 of the message; it stays 0 when the
  message holds none.
\<close>

fun first_zero :: "nat \<Rightarrow> int list \<Rightarrow> nat" where
  "first_zero i [] = 0"
| "first_zero i (element # rest) = (if element = 0 then i else first_zero (Suc i) rest)"

text \<open>
  \<^verbatim>\<open>''.join(chr(c) for c in xs)\<close>: every element becomes the code point of that
  number; \<^verbatim>\<open>chr\<close> raises \<^verbatim>\<open>ValueError\<close> outside \<^verbatim>\<open>range(0x110000)\<close>.
\<close>

fun join_chr :: "int list \<Rightarrow> error + pystr" where
  "join_chr [] = Inr []"
| "join_chr (c # cs) =
     (if 0 \<le> c \<and> c < 1114112 then bindE (join_chr cs) (\<lambda>s. Inr (nat c # s))
      else Inl ValueError)"

text \<open>\<^verbatim>\<open>msg.pop(0)\<close> on a list.\<close>

definition pop0 :: "'a list \<Rightarrow> error + ('a \<times> 'a list)" where
  "pop0 xs = (case xs of [] \<Rightarrow> Inl IndexError | x # rest \<Rightarrow> Inr (x, rest))"

text \<open>The slices \<^verbatim>\<open>xs[0:n]\<close> and \<^verbatim>\<open>xs[n:]\<close>; a negative bound counts from the end.\<close>

definition slice_to :: "int \<Rightarrow> 'a list \<Rightarrow> 'a list" where
  "slice_to n xs = (if n < 0 then take (nat (int (length xs) + n)) xs else take (nat n) xs)"

definition slice_from :: "int \<Rightarrow> 'a list \<Rightarrow> 'a list" where
  "slice_from n xs = (if n < 0 then drop (nat (int (length xs) + n)) xs else drop (nat n) xs)"

text \<open>
  Lines 165 to 179: the loop that pulls the specifiers off the message. It leaves
  only when the count \<open>i\<close> meets \<open>dim\<close>, or by an exception: \<^verbatim>\<open>pop\<close> on the
  emptied message, or a nibble that is no key of \<^verbatim>\<open>format_specifiers\<close>.
\<close>

fun unpack_specifiers ::
  "int \<Rightarrow> int \<Rightarrow> int list \<Rightarrow> string list \<Rightarrow> error + (string list \<times> int list)" where
  "unpack_specifiers i dim [] acc = Inl IndexError"
| "unpack_specifiers i dim (fs0 # msg) acc =
     bindE (getitem format_specifiers (fs0 AND 15)) (\<lambda>lo.
       if i + 1 = dim then Inr (acc @ [lo], msg)
       else bindE (getitem format_specifiers (drop_bit 4 (fs0 AND 240))) (\<lambda>hi.
         if i + 2 = dim then Inr (acc @ [lo, hi], msg)
         else unpack_specifiers (i + 2) dim msg (acc @ [lo, hi])))"

text \<open>Lines 214 to 217: pairs of bytes, low byte first; \<^verbatim>\<open>pop\<close> raises on an odd rest.\<close>

fun combine16 :: "int list \<Rightarrow> error + int list" where
  "combine16 [] = Inr []"
| "combine16 [b0] = Inl IndexError"
| "combine16 (b0 # b1 # row8) =
     bindE (combine16 row8) (\<lambda>row16. Inr ((b0 + b1 * 256) # row16))"

text \<open>Lines 247 to 252: four bytes each, low byte first.\<close>

fun combine32 :: "int list \<Rightarrow> error + int list" where
  "combine32 [] = Inr []"
| "combine32 (b0 # b1 # b2 # b3 # row8) =
     bindE (combine32 row8) (\<lambda>row32.
       Inr ((b0 + b1 * 256 + b2 * 65536 + b3 * 16777216) # row32))"
| "combine32 row8 = Inl IndexError"

text \<open>
  Lines 187 and 188 (and their copies): the list of rows is created only when
  \<^verbatim>\<open>topical_data\<close> as a whole is empty.
\<close>

definition ensure_rows :: "pystr \<Rightarrow> (pystr \<times> stored) list \<Rightarrow> (pystr \<times> stored) list" where
  "ensure_rows topic td = (if td = [] then AList.update topic (Rows []) td else td)"

text \<open>
  \<^verbatim>\<open>self.topical_data[topic].append(row)\<close>: \<^verbatim>\<open>KeyError\<close> without the key,
  \<^verbatim>\<open>AttributeError\<close> when the value is the text of a STRING specifier.
\<close>

definition append_row ::
  "pystr \<Rightarrow> int list \<Rightarrow> (pystr \<times> stored) list \<Rightarrow> error + (pystr \<times> stored) list" where
  "append_row topic row td =
     bindE (getitem td topic) (\<lambda>v.
       case v of Text s \<Rightarrow> Inl AttributeError
       | Rows rows \<Rightarrow> Inr (AList.update topic (Rows (rows @ [row])) td))"

text \<open>
  Lines 182 to 281: the body of the loop over the decoded specifiers, on the rest
  of the message, \<^verbatim>\<open>topical_data\<close> and the logged lines. STRING reads the whole
  rest and consumes nothing; FLOAT and every name without a branch (NONE) log a line
  and consume nothing. The sign of S32 is applied above 2147483648 (line 272).
\<close>

definition decode_row ::
  "pystr \<Rightarrow> int \<Rightarrow> string \<Rightarrow> int list \<times> (pystr \<times> stored) list \<times> string list
     \<Rightarrow> error + (int list \<times> (pystr \<times> stored) list \<times> string list)" where
  "decode_row topic len element s =
     (case s of (msg, td, lg) \<Rightarrow>
      if element = ''STRING'' then
        bindE (join_chr msg) (\<lambda>string_message.
          Inr (msg, AList.update topic (Text string_message) td, lg))
      else if element = ''U8'' then
        bindE (append_row topic (slice_to len msg) (ensure_rows topic td)) (\<lambda>td'.
          Inr (slice_from len msg, td', lg))
      else if element = ''S8'' then
        bindE (append_row topic (map (\<lambda>e. if e > 127 then e - 256 else e) (slice_to len msg))
                 (ensure_rows topic td)) (\<lambda>td'.
          Inr (slice_from len msg, td', lg))
      else if element = ''U16'' then
        bindE (combine16 (slice_to (len * 2) msg)) (\<lambda>row16.
        bindE (append_row topic row16 (ensure_rows topic td)) (\<lambda>td'.
          Inr (slice_from (len * 2) msg, td', lg)))
      else if element = ''S16'' then
        bindE (combine16 (slice_to (len * 2) msg)) (\<lambda>row16.
        bindE (append_row topic (map (\<lambda>e. if e > 32767 then e - 65536 else e) row16)
                 (ensure_rows topic td)) (\<lambda>td'.
          Inr (slice_from (len * 2) msg, td', lg)))
      else if element = ''U32'' then
        bindE (combine32 (slice_to (len * 4) msg)) (\<lambda>row32.
        bindE (append_row topic row32 (ensure_rows topic td)) (\<lambda>td'.
          Inr (slice_from (len * 4) msg, td', lg)))
      else if element = ''S32'' then
        bindE (combine32 (slice_to (len * 4) msg)) (\<lambda>row32.
        bindE (append_row topic (map (\<lambda>e. if e > 2147483648 then e - 4294967296 else e) row32)
                 (ensure_rows topic td)) (\<lambda>td'.
          Inr (slice_from (len * 4) msg, td', lg)))
      else if element = ''FLOAT'' then
        Inr (msg, td, lg @ [''FLOAT not currently supported!''])
      else Inr (msg, td, lg @ [''unrecognized message type: '' @ element]))"

text \<open>Line 181: the loop over the decoded specifiers.\<close>

fun decode_rows ::
  "pystr \<Rightarrow> int \<Rightarrow> string list \<Rightarrow> int list \<times> (pystr \<times> stored) list \<times> string list
     \<Rightarrow> error + (int list \<times> (pystr \<times> stored) list \<times> string list)" where
  "decode_rows topic len [] s = Inr s"
| "decode_rows topic len (element # rest) s =
     bindE (decode_row topic len element s) (decode_rows topic len rest)"

text \<open>
  Lines 149 to 281: one message is decoded into \<^verbatim>\<open>topical_data\<close>. The result
  holds the topic, \<^verbatim>\<open>dim\<close>, \<^verbatim>\<open>length\<close>, the specifiers, the updated
  \<^verbatim>\<open>topical_data\<close> and the lines logged.
\<close>

definition decode ::
  "int list \<Rightarrow> (pystr \<times> stored) list
     \<Rightarrow> error + (pystr \<times> int \<times> int \<times> string list \<times> (pystr \<times> stored) list \<times> string list)" where
  "decode msg0 td =
     (let zero_index = first_zero 0 msg0 in
      bindE (join_chr (take zero_index msg0)) (\<lambda>topic.
      bindE (pop0 (drop (zero_index + 1) msg0)) (\<lambda>(dim, msg1).
      bindE (pop0 msg1) (\<lambda>(len_lo, msg2).
      bindE (pop0 msg2) (\<lambda>(len_hi, msg3).
      bindE (unpack_specifiers 0 dim msg3 []) (\<lambda>(specifiers, msg4).
      bindE (decode_rows topic (len_lo + len_hi * 256) specifiers (msg4, td, [])) (\<lambda>(msg5, td', lg).
        Inr (topic, dim, len_lo + len_hi * 256, specifiers, td', lg))))))))"

text \<open>
  Lines 151 to 179 on their own: the part of \<open>decode\<close> before the loop over the
  specifiers, which yields the topic, \<^verbatim>\<open>dim\<close>, \<^verbatim>\<open>length\<close>, the specifiers and the
  rest of the message.
\<close>

definition decode_header ::
  "int list \<Rightarrow> error + (pystr \<times> int \<times> int \<times> string list \<times> int list)" where
  "decode_header msg0 =
     (let zero_index = first_zero 0 msg0 in
      bindE (join_chr (take zero_index msg0)) (\<lambda>topic.
      bindE (pop0 (drop (zero_index + 1) msg0)) (\<lambda>(dim, msg1).
      bindE (pop0 msg1) (\<lambda>(len_lo, msg2).
      bindE (pop0 msg2) (\<lambda>(len_hi, msg3).
      bindE (unpack_specifiers 0 dim msg3 []) (\<lambda>(specifiers, msg4).
        Inr (topic, dim, len_lo + len_hi * 256, specifiers, msg4)))))))"

section \<open>run: dispatch and the loop over the received messages\<close>

text \<open>
  The loop of lines 292 and 293 can go on for ever (a callback that subscribes a
  callback to the topic on every call makes the list grow as fast as it is walked),
  so the functions of this section take a bound on the number of steps of that loop
  and return \<open>None\<close> when a loop has not ended within it. Otherwise the result is
  the exception that ended the dispatch, or the state with the calls made.
\<close>

definition bindO ::
  "(error + 'a) option \<Rightarrow> ('a \<Rightarrow> (error + 'b) option) \<Rightarrow> (error + 'b) option" where
  "bindO m f = (case m of None \<Rightarrow> None | Some (Inl e) \<Rightarrow> Some (Inl e) | Some (Inr x) \<Rightarrow> f x)"

text \<open>
  Lines 292 and 293: \<^verbatim>\<open>for element in self.subscribers[key]: element()\<close>. The
  expression is evaluated once, to the list object at the address \<open>a\<close>; the
  iterator holds a position \<open>i\<close> and, at every step, reads the list as it is then:
  it ends when \<open>i\<close> has reached the length, and calls the element at \<open>i\<close> otherwise.
  An exception raised by the callback ends the loop.
\<close>

fun call_each ::
  "'c behaviour \<Rightarrow> nat \<Rightarrow> nat \<Rightarrow> nat \<Rightarrow> 'c world \<times> 'c calls
     \<Rightarrow> (error + 'c world \<times> 'c calls) option" where
  "call_each call a 0 i s = None"
| "call_each call a (Suc fuel) i (w, tr) =
     (if i < length (lists w a) then
        (case call (lists w a ! i) w of
           Inl e \<Rightarrow> Some (Inl e)
         | Inr w' \<Rightarrow> call_each call a fuel (Suc i) (w', tr @ [(lists w a ! i, w)]))
      else Some (Inr (w, tr)))"

text \<open>
  Lines 287 to 299, for one key of the copy taken at line 284: without subscribers
  the entry is popped; otherwise the callbacks of the list are called, and the
  entry is popped after the loop.
\<close>

definition dispatch_key ::
  "'c behaviour \<Rightarrow> nat \<Rightarrow> pystr \<Rightarrow> 'c world \<times> 'c calls
     \<Rightarrow> (error + 'c world \<times> 'c calls) option" where
  "dispatch_key call fuel key s =
     (case s of (w, tr) \<Rightarrow>
      (case map_of (subscribers w) key of
         None \<Rightarrow>
           Some (bindE (pop key (topical_data w)) (\<lambda>td. Inr (w\<lparr>topical_data := td\<rparr>, tr)))
       | Some a \<Rightarrow>
           bindO (call_each call a fuel 0 (w, tr)) (\<lambda>(w', tr').
             Some (bindE (pop key (topical_data w')) (\<lambda>td.
               Inr (w'\<lparr>topical_data := td\<rparr>, tr'))))))"

fun dispatch_keys ::
  "'c behaviour \<Rightarrow> nat \<Rightarrow> pystr list \<Rightarrow> 'c world \<times> 'c calls
     \<Rightarrow> (error + 'c world \<times> 'c calls) option" where
  "dispatch_keys call fuel [] s = Some (Inr s)"
| "dispatch_keys call fuel (key # keys) s =
     bindO (dispatch_key call fuel key s) (dispatch_keys call fuel keys)"

text \<open>
  Lines 284 to 299: the keys that \<^verbatim>\<open>topical_data\<close> has at line 284 are dispatched, in
  order.
\<close>

definition dispatch ::
  "'c behaviour \<Rightarrow> nat \<Rightarrow> 'c world \<times> 'c calls \<Rightarrow> (error + 'c world \<times> 'c calls) option" where
  "dispatch call fuel s = dispatch_keys call fuel (map fst (topical_data (fst s))) s"

text \<open>Lines 149 to 299: one pass of the inner loop, for the message pulled.\<close>

definition receive ::
  "'c behaviour \<Rightarrow> nat \<Rightarrow> int list \<Rightarrow> 'c world \<times> 'c calls
     \<Rightarrow> (error + 'c world \<times> 'c calls) option" where
  "receive call fuel msg s =
     (case s of (w, tr) \<Rightarrow>
      (case decode msg (topical_data w) of
         Inl e \<Rightarrow> Some (Inl e)
       | Inr (topic, dim, len, specifiers, td, lg) \<Rightarrow>
           dispatch call fuel (w\<lparr>topical_data := td, logged := logged w @ lg\<rparr>, tr)))"

text \<open>
  Lines 148 to 299: the inner loop, over the messages waiting in the frame. No
  statement of \<^verbatim>\<open>run\<close> catches an exception, so the first one ends the loop (and
  the thread) with the messages behind it undecoded.
\<close>

fun run_frames ::
  "'c behaviour \<Rightarrow> nat \<Rightarrow> int list list \<Rightarrow> 'c world \<times> 'c calls
     \<Rightarrow> (error + 'c world \<times> 'c calls) option" where
  "run_frames call fuel [] s = Some (Inr s)"
| "run_frames call fuel (msg # rest) s =
     bindO (receive call fuel msg s) (run_frames call fuel rest)"


section \<open>Auxiliary definitions\<close>

text \<open>
  The state when the module has just been imported: both dicts of the class are
  empty (lines 17 and 18), no list object exists, nothing is queued or logged.
\<close>

definition initial_world :: "'c world" where
  "initial_world =
     \<lparr>topical_data = [], subscribers = [], lists = (\<lambda>a. []), allocated = 0,
      frames = (\<lambda>self. \<lparr>tx_messages = [], rx_messages = []\<rparr>), logged = []\<rparr>"


text \<open>
  Callbacks for the examples: one that returns without changing anything (it may
  read with \<^verbatim>\<open>get_data\<close>); one under which the callback 7 unsubscribes itself from
  the topic \<^verbatim>\<open>'t'\<close> and every other callback only returns; one that raises.
\<close>

definition only_reads :: "'c behaviour" where
  "only_reads callback w = Inr w"




definition observed ::
  "nat \<Rightarrow> pystr \<Rightarrow> (error + 'c world \<times> 'c calls) option
     \<Rightarrow> (error + ('c \<times> (error + stored)) list) option" where
  "observed self topic r =
     map_option
       (map_sum id (\<lambda>(w, tr). map (\<lambda>(callback, wi). (callback, get_data self topic wi)) tr)) r"


definition final_store ::
  "nat \<Rightarrow> (error + 'c world \<times> 'c calls) option
     \<Rightarrow> (error + (pystr \<times> stored) list) option" where
  "final_store self r = map_option (map_sum id (\<lambda>(w, tr). self_topical_data w self)) r"

text \<open>
  The layout of the specifier block in the words of the specification: the codes of
  the names, and the bytes that hold code \<open>2k\<close> in the low nibble and code \<open>2k + 1\<close>,
  if there is one, in the high nibble of byte \<open>k\<close>. The loop of the source,
  \<open>pack_specifiers\<close>, is compared with them below.
\<close>

fun specifier_codes :: "string list \<Rightarrow> error + int list" where
  "specifier_codes [] = Inr []"
| "specifier_codes (e # es) =
     bindE (getitem reversed_specifiers e) (\<lambda>fs. bindE (specifier_codes es) (\<lambda>cs. Inr (fs # cs)))"

fun nibble_bytes :: "int list \<Rightarrow> int list" where
  "nibble_bytes [] = []"
| "nibble_bytes [lo] = [lo AND 15]"
| "nibble_bytes (lo # hi # cs) = ((lo AND 15) + push_bit 4 (hi AND 15)) # nibble_bytes cs"


text \<open>
  The values the specification calls representable in the width of a numeric
  format specifier.
\<close>

definition representable :: "string \<Rightarrow> int \<Rightarrow> bool" where
  "representable fmt v \<longleftrightarrow>
     fmt = ''U8'' \<and> 0 \<le> v \<and> v \<le> 255 \<or>
     fmt = ''S8'' \<and> - 128 \<le> v \<and> v \<le> 127 \<or>
     fmt = ''U16'' \<and> 0 \<le> v \<and> v \<le> 65535 \<or>
     fmt = ''S16'' \<and> - 32768 \<le> v \<and> v \<le> 32767 \<or>
     fmt = ''U32'' \<and> 0 \<le> v \<and> v \<le> 4294967295 \<or>
     fmt = ''S32'' \<and> - 2147483648 \<le> v \<and> v \<le> 2147483647"

section \<open>Auxiliary facts\<close>

lemma bindE_Inl [simp]: "bindE (Inl e) f = Inl e"
  by (simp add: bindE_def)

lemma bindE_Inr [simp]: "bindE (Inr x) f = f x"
  by (simp add: bindE_def)

lemma bindE_eq_Inr: "bindE m f = Inr y \<longleftrightarrow> (\<exists>x. m = Inr x \<and> f x = Inr y)"
  by (cases m) simp_all

lemma and_255: "(x::int) AND 255 = x mod 256"
  using take_bit_eq_mask [of 8 x] by (simp add: take_bit_eq_mod mask_eq_exp_minus_1)

lemma and_15: "(x::int) AND 15 = x mod 16"
  using take_bit_eq_mask [of 4 x] by (simp add: take_bit_eq_mod mask_eq_exp_minus_1)

lemma byte1: "drop_bit 8 ((x::int) AND 65280) = (x div 256) mod 256"
proof -
  have "drop_bit 8 (65280::int) = 255" by (simp add: drop_bit_eq_div)
  then have "drop_bit 8 (x AND 65280) = drop_bit 8 x AND 255"
    using drop_bit_and [of 8 x 65280] by simp
  then show ?thesis by (simp add: and_255 drop_bit_eq_div)
qed

lemma byte2: "drop_bit 16 ((x::int) AND 16711680) = (x div 65536) mod 256"
proof -
  have "drop_bit 16 (16711680::int) = 255" by (simp add: drop_bit_eq_div)
  then have "drop_bit 16 (x AND 16711680) = drop_bit 16 x AND 255"
    using drop_bit_and [of 16 x 16711680] by simp
  then show ?thesis by (simp add: and_255 drop_bit_eq_div)
qed

lemma byte3: "drop_bit 24 ((x::int) AND 4278190080) = (x div 16777216) mod 256"
proof -
  have "drop_bit 24 (4278190080::int) = 255" by (simp add: drop_bit_eq_div)
  then have "drop_bit 24 (x AND 4278190080) = drop_bit 24 x AND 255"
    using drop_bit_and [of 24 x 4278190080] by simp
  then show ?thesis by (simp add: and_255 drop_bit_eq_div)
qed

lemma nibble_high: "drop_bit 4 ((x::int) AND 240) = (x div 16) mod 16"
proof -
  have "drop_bit 4 (240::int) = 15" by (simp add: drop_bit_eq_div)
  then have "drop_bit 4 (x AND 240) = drop_bit 4 x AND 15"
    using drop_bit_and [of 4 x 240] by simp
  then show ?thesis by (simp add: and_15 drop_bit_eq_div)
qed

lemmas bit_arith = and_255 and_15 byte1 byte2 byte3 nibble_high and_one_eq push_bit_eq_mult

lemmas encode_defs =
  encode_def row_length_def encode_row_def index_def getitem_def reversed_specifiers_def
  format_specifiers_def utf8_char_def bytes16_def bytes32_def

lemmas decode_defs =
  decode_def decode_row_def pop0_def slice_to_def slice_from_def ensure_rows_def
  append_row_def getitem_def format_specifiers_def

lemma pack_specifiers_nibbles:
  "(\<forall>msg i. even i \<longrightarrow>
      pack_specifiers msg i fs = bindE (specifier_codes fs) (\<lambda>cs. Inr (msg @ nibble_bytes cs))) \<and>
   (\<forall>msg i x. odd i \<longrightarrow>
      pack_specifiers (msg @ [x]) i fs =
        bindE (specifier_codes fs) (\<lambda>cs. Inr (case cs of [] \<Rightarrow> msg @ [x]
           | c # cs' \<Rightarrow> msg @ [x + push_bit 4 (c AND 15)] @ nibble_bytes cs')))"
proof (induction fs)
  case Nil
  show ?case by simp
next
  case (Cons e es)
  show ?case
  proof (cases "getitem reversed_specifiers e")
    case (Inl err)
    then show ?thesis by simp
  next
    case (Inr c)
    show ?thesis
    proof (cases "specifier_codes es")
      case (Inl err)
      with Inr Cons show ?thesis by (simp add: and_one_eq mod_2_eq_odd)
    next
      case codes: (Inr cs)
      with Inr Cons show ?thesis
        by (cases cs) (simp_all add: and_one_eq mod_2_eq_odd)
    qed
  qed
qed

lemma getitem_reversed_range:
  "getitem reversed_specifiers e = Inr c \<Longrightarrow> 0 \<le> c \<and> c < 16"
  by (auto simp: getitem_def reversed_specifiers_def format_specifiers_def split: if_splits)

lemma specifier_codes_nth:
  "specifier_codes fs = Inr cs \<Longrightarrow>
     length cs = length fs \<and> (\<forall>j < length fs. getitem reversed_specifiers (fs ! j) = Inr (cs ! j))"
proof (induction fs arbitrary: cs)
  case Nil
  then show ?case by simp
next
  case (Cons e es)
  then obtain c cs' where c: "getitem reversed_specifiers e = Inr c"
    and cs': "specifier_codes es = Inr cs'" and cs: "cs = c # cs'"
    by (auto simp: bindE_eq_Inr)
  from Cons.IH [OF cs'] c cs show ?case
    by (auto simp: nth_Cons split: nat.splits)
qed

lemma nibble_bytes_length: "length (nibble_bytes cs) = (length cs + 1) div 2"
  by (induction cs rule: nibble_bytes.induct) simp_all

lemma nibble_split:
  "0 \<le> lo \<Longrightarrow> lo < 16 \<Longrightarrow> 0 \<le> hi \<Longrightarrow> hi < 16 \<Longrightarrow>
     ((lo AND 15) + push_bit 4 (hi AND 15)) AND 15 = lo \<and>
     drop_bit 4 ((lo AND 15) + push_bit 4 (hi AND 15)) = (hi::int)"
  by (simp add: and_15 push_bit_eq_mult drop_bit_eq_div)

lemma nibble_bytes_nth:
  "\<forall>c \<in> set cs. 0 \<le> c \<and> c < 16 \<Longrightarrow> k < (length cs + 1) div 2 \<Longrightarrow>
     nibble_bytes cs ! k AND 15 = cs ! (2 * k) \<and>
     drop_bit 4 (nibble_bytes cs ! k) = (if 2 * k + 1 < length cs then cs ! (2 * k + 1) else 0)"
proof (induction cs arbitrary: k rule: nibble_bytes.induct)
  case 1
  then show ?case by simp
next
  case (2 lo)
  then show ?case by (simp add: and_15 drop_bit_eq_div)
next
  case (3 lo hi cs)
  show ?case
  proof (cases k)
    case 0
    with 3 nibble_split [of lo hi] show ?thesis by simp
  next
    case (Suc k')
    with 3 show ?thesis by simp
  qed
qed

lemma encode_row_append:
  "encode_row data i e msg lg =
     bindE (encode_row data i e [] []) (\<lambda>(p, l). Inr (msg @ p, lg @ l))"
  by (simp add: encode_row_def bindE_def split: sum.splits)

lemma encode_rows_append:
  "encode_rows data i es msg lg =
     bindE (encode_rows data i es [] []) (\<lambda>(p, l). Inr (msg @ p, lg @ l))"
proof (induction es arbitrary: i msg lg)
  case Nil
  show ?case by simp
next
  case (Cons e es)
  show ?case
  proof (cases "encode_row data i e [] []")
    case (Inl err)
    then have "encode_row data i e msg lg = Inl err"
      using encode_row_append [of data i e msg lg] by simp
    with Inl show ?thesis by simp
  next
    case (Inr r)
    obtain p l where r: "r = (p, l)" by (cases r)
    have "encode_row data i e msg lg = Inr (msg @ p, lg @ l)"
      using encode_row_append [of data i e msg lg] Inr r by simp
    then have here: "encode_rows data i (e # es) msg lg = encode_rows data (Suc i) es (msg @ p) (lg @ l)"
      by simp
    have start: "encode_rows data i (e # es) [] [] = encode_rows data (Suc i) es p l"
      using Inr r by simp
    have a: "encode_rows data (Suc i) es (msg @ p) (lg @ l) =
          bindE (encode_rows data (Suc i) es [] []) (\<lambda>(q, m). Inr ((msg @ p) @ q, (lg @ l) @ m))"
      by (rule Cons.IH)
    have b: "encode_rows data (Suc i) es p l =
          bindE (encode_rows data (Suc i) es [] []) (\<lambda>(q, m). Inr (p @ q, l @ m))"
      by (rule Cons.IH)
    show ?thesis
      unfolding here start a b
      by (cases "encode_rows data (Suc i) es [] []") (simp_all add: case_prod_beta)
  qed
qed

lemma encode_layout:
  assumes "encode topic data fs = Inr (msg, lg)"
  shows "\<exists>n tb cs payload. row_length fs data = Inr n \<and> utf8 topic = Inr tb \<and>
           specifier_codes fs = Inr cs \<and> encode_rows data 0 fs [] [] = Inr (payload, lg) \<and>
           msg = tb @ [0, int (length data), n AND 255, drop_bit 8 (n AND 65280)]
                    @ nibble_bytes cs @ payload"
proof -
  from assms obtain n tb m where n: "row_length fs data = Inr n" and tb: "utf8 topic = Inr tb"
    and m: "pack_specifiers (tb @ [0, int (length data), n AND 255, drop_bit 8 (n AND 65280)]) 0 fs
              = Inr m"
    and rows: "encode_rows data 0 fs m [] = Inr (msg, lg)"
    unfolding encode_def bindE_eq_Inr by blast
  from m obtain cs where cs: "specifier_codes fs = Inr cs"
    and m_eq: "m = tb @ [0, int (length data), n AND 255, drop_bit 8 (n AND 65280)] @ nibble_bytes cs"
    using pack_specifiers_nibbles [of fs] by (auto simp: bindE_eq_Inr)
  from rows have "bindE (encode_rows data 0 fs [] []) (\<lambda>(p, l). Inr (m @ p, [] @ l)) = Inr (msg, lg)"
    using encode_rows_append [of data 0 fs m "[]"] by simp
  then obtain payload where "encode_rows data 0 fs [] [] = Inr (payload, lg)"
    and "msg = m @ payload"
    by (auto simp: bindE_eq_Inr)
  with n tb cs m_eq show ?thesis by simp
qed

lemma le16_value: "(n AND 255) + 256 * drop_bit 8 (n AND 65280) = (n::int) mod 65536"
proof -
  have "n mod (256 * 256) = 256 * (n div 256 mod 256) + n mod 256"
    by (rule zmod_zmult2_eq) simp
  then show ?thesis unfolding and_255 byte1 by simp
qed

lemma specifier_codes_range:
  "specifier_codes fs = Inr cs \<Longrightarrow> \<forall>c \<in> set cs. 0 \<le> c \<and> c < 16"
proof (induction fs arbitrary: cs)
  case Nil
  then show ?case by simp
next
  case (Cons e es)
  then obtain c cs' where c: "getitem reversed_specifiers e = Inr c"
    and cs': "specifier_codes es = Inr cs'" and cs: "cs = c # cs'"
    by (auto simp: bindE_eq_Inr)
  from Cons.IH [OF cs'] getitem_reversed_range [OF c] cs show ?case by simp
qed


section \<open>The claims about the encoder\<close>

text \<open>
  C9. For every format list, \<^verbatim>\<open>publish\<close> produces exactly \<open>ceil(dim/2)\<close> packed
  specifier bytes, right after the header (the topic bytes, the terminator, \<^verbatim>\<open>dim\<close>
  and the two bytes of the row length) and right before the payload: byte \<open>k\<close> carries
  the code of specifier \<open>2k\<close> in its low nibble and, when it exists, the code of
  specifier \<open>2k + 1\<close> in its high nibble (0 otherwise). For U8, S16, U32 the block is
  0x52, 0x06.
\<close>

theorem specifier_block_packing:
  assumes "encode topic data fs = Inr (msg, lg)" and "utf8 topic = Inr tb"
  shows "(\<exists>header block payload.
           msg = header @ block @ payload \<and> length header = length tb + 4 \<and>
           encode_rows data 0 fs [] [] = Inr (payload, lg) \<and>
           length block = (length fs + 1) div 2 \<and>
           (\<forall>k < length block.
              getitem reversed_specifiers (fs ! (2 * k)) = Inr (block ! k AND 15) \<and>
              (if 2 * k + 1 < length fs
               then getitem reversed_specifiers (fs ! (2 * k + 1)) = Inr (drop_bit 4 (block ! k))
               else drop_bit 4 (block ! k) = 0))) \<and>
         pack_specifiers [] 0 [''U8'', ''S16'', ''U32''] = Inr [82, 6]"
proof
  from encode_layout [OF assms(1)] assms(2)
  obtain n cs payload where cs: "specifier_codes fs = Inr cs"
    and payload: "encode_rows data 0 fs [] [] = Inr (payload, lg)"
    and msg: "msg = (tb @ [0, int (length data), n AND 255, drop_bit 8 (n AND 65280)])
                 @ nibble_bytes cs @ payload"
    by auto
  have len: "length cs = length fs"
    and nth: "\<And>j. j < length fs \<Longrightarrow> getitem reversed_specifiers (fs ! j) = Inr (cs ! j)"
    using specifier_codes_nth [OF cs] by simp_all
  have range: "\<forall>c \<in> set cs. 0 \<le> c \<and> c < 16"
    by (rule specifier_codes_range [OF cs])
  have block: "getitem reversed_specifiers (fs ! (2 * k)) = Inr (nibble_bytes cs ! k AND 15) \<and>
      (if 2 * k + 1 < length fs
       then getitem reversed_specifiers (fs ! (2 * k + 1)) = Inr (drop_bit 4 (nibble_bytes cs ! k))
       else drop_bit 4 (nibble_bytes cs ! k) = 0)"
    if "k < length (nibble_bytes cs)" for k
  proof -
    from that have k: "k < (length cs + 1) div 2" by (simp add: nibble_bytes_length)
    then have "2 * k < length fs" using len by linarith
    with nibble_bytes_nth [OF range k] nth len show ?thesis by simp
  qed
  show "\<exists>header block payload.
           msg = header @ block @ payload \<and> length header = length tb + 4 \<and>
           encode_rows data 0 fs [] [] = Inr (payload, lg) \<and>
           length block = (length fs + 1) div 2 \<and>
           (\<forall>k < length block.
              getitem reversed_specifiers (fs ! (2 * k)) = Inr (block ! k AND 15) \<and>
              (if 2 * k + 1 < length fs
               then getitem reversed_specifiers (fs ! (2 * k + 1)) = Inr (drop_bit 4 (block ! k))
               else drop_bit 4 (block ! k) = 0))"
  proof (intro exI conjI)
    show "msg = (tb @ [0, int (length data), n AND 255, drop_bit 8 (n AND 65280)])
                 @ nibble_bytes cs @ payload"
      by (rule msg)
    show "length (tb @ [0, int (length data), n AND 255, drop_bit 8 (n AND 65280)])
            = length tb + 4"
      by simp
    show "encode_rows data 0 fs [] [] = Inr (payload, lg)"
      by (rule payload)
    show "length (nibble_bytes cs) = (length fs + 1) div 2"
      using len by (simp add: nibble_bytes_length)
    show "\<forall>k < length (nibble_bytes cs).
              getitem reversed_specifiers (fs ! (2 * k)) = Inr (nibble_bytes cs ! k AND 15) \<and>
              (if 2 * k + 1 < length fs
               then getitem reversed_specifiers (fs ! (2 * k + 1))
                      = Inr (drop_bit 4 (nibble_bytes cs ! k))
               else drop_bit 4 (nibble_bytes cs ! k) = 0)"
      using block by blast
  qed
next
  show "pack_specifiers [] 0 [''U8'', ''S16'', ''U32''] = Inr [82, 6]"
    by (simp add: getitem_def reversed_specifiers_def format_specifiers_def bit_arith)
qed

theorem specifier_block_packing_witness:
  "encode [116] [[PInt 1], [PInt 2], [PInt 3]] [''U8'', ''S16'', ''U32'']
     = Inr ([116, 0, 3, 1, 0, 82, 6, 1, 2, 0, 3, 0, 0, 0], []) \<and>
   utf8 [116] = Inr [116] \<and>
   (\<exists>header block payload.
      [116, 0, 3, 1, 0, 82, 6, 1, 2, 0, 3, 0, 0, 0] = header @ block @ payload \<and>
      length header = length [116::int] + 4 \<and>
      encode_rows [[PInt 1], [PInt 2], [PInt 3]] 0 [''U8'', ''S16'', ''U32''] [] []
        = Inr (payload, []) \<and>
      length block = (length [''U8'', ''S16'', ''U32''] + 1) div 2 \<and>
      (\<forall>k < length block.
         getitem reversed_specifiers ([''U8'', ''S16'', ''U32''] ! (2 * k))
           = Inr (block ! k AND 15) \<and>
         (if 2 * k + 1 < length [''U8'', ''S16'', ''U32'']
          then getitem reversed_specifiers ([''U8'', ''S16'', ''U32''] ! (2 * k + 1))
                 = Inr (drop_bit 4 (block ! k))
          else drop_bit 4 (block ! k) = 0)))"
proof -
  have e: "encode [116] [[PInt 1], [PInt 2], [PInt 3]] [''U8'', ''S16'', ''U32'']
             = Inr ([116, 0, 3, 1, 0, 82, 6, 1, 2, 0, 3, 0, 0, 0], [])"
    by (simp add: encode_defs bit_arith)
  have u: "utf8 [116] = Inr [116]"
    by (simp add: utf8_char_def)
  show ?thesis
    by (rule conjI [OF e conjI [OF u conjunct1 [OF specifier_block_packing [OF e u]]]])
qed

text \<open>
  C6, as the source has it. The two bytes after \<^verbatim>\<open>dim\<close> hold, little-endian and
  modulo 65536, the character count of \<^verbatim>\<open>data[0][0]\<close> when the format list is
  exactly \<^verbatim>\<open>['STRING']\<close>, and the element count of \<^verbatim>\<open>data[0]\<close> for every other
  format list (also \<^verbatim>\<open>['NONE']\<close>, and lists of several specifiers that start with
  STRING or NONE).
\<close>

theorem row_length_field:
  assumes "encode topic data fs = Inr (msg, lg)" and "utf8 topic = Inr tb"
  shows "\<exists>n rest. msg = tb @ [0, int (length data), n AND 255, drop_bit 8 (n AND 65280)] @ rest \<and>
           (n AND 255) + 256 * drop_bit 8 (n AND 65280) = n mod 65536 \<and>
           (if fs = [''STRING'']
            then \<exists>s row rows. data = (PStr s # row) # rows \<and> n = int (length s)
            else \<exists>row rows. data = row # rows \<and> n = int (length row))"
proof -
  from encode_layout [OF assms(1)] assms(2)
  obtain n cs payload where n: "row_length fs data = Inr n"
    and msg: "msg = tb @ [0, int (length data), n AND 255, drop_bit 8 (n AND 65280)]
                 @ nibble_bytes cs @ payload"
    by auto
  have "if fs = [''STRING'']
        then \<exists>s row rows. data = (PStr s # row) # rows \<and> n = int (length s)
        else \<exists>row rows. data = row # rows \<and> n = int (length row)"
  proof (cases "fs = [''STRING'']")
    case True
    with n show ?thesis
      by (auto simp: row_length_def index_def bindE_eq_Inr neq_Nil_conv
               split: if_splits pyval.splits)
  next
    case False
    with n show ?thesis
      by (auto simp: row_length_def index_def bindE_eq_Inr neq_Nil_conv split: if_splits)
  qed
  with msg le16_value [of n] show ?thesis by blast
qed

theorem row_length_field_witness:
  "encode [116] [[PStr [97, 98, 99]]] [''STRING'']
     = Inr ([116, 0, 1, 3, 0, 1, 97, 98, 99], []) \<and>
   utf8 [116] = Inr [116] \<and>
   (\<exists>n rest. [116, 0, 1, 3, 0, 1, 97, 98, 99]
        = [116] @ [0, int (length [[PStr [97, 98, 99]]]), n AND 255, drop_bit 8 (n AND 65280)]
            @ rest \<and>
      (n AND 255) + 256 * drop_bit 8 (n AND 65280) = n mod 65536 \<and>
      (if [''STRING''] = [''STRING'']
       then \<exists>s row rows. [[PStr [97, 98, 99]]] = (PStr s # row) # rows \<and> n = int (length s)
       else \<exists>row rows. [[PStr [97, 98, 99]]] = row # rows \<and> n = int (length row)))"
proof -
  have e: "encode [116] [[PStr [97, 98, 99]]] [''STRING'']
             = Inr ([116, 0, 1, 3, 0, 1, 97, 98, 99], [])"
    by (simp add: encode_defs bit_arith)
  have u: "utf8 [116] = Inr [116]"
    by (simp add: utf8_char_def)
  show ?thesis
    by (rule conjI [OF e conjI [OF u row_length_field [OF e u]]])
qed

text \<open>
  C6 as stated fails: under \<^verbatim>\<open>['NONE']\<close> the string \<^verbatim>\<open>'abc'\<close> of three characters
  is sent with the row length 1, the element count of \<^verbatim>\<open>data[0]\<close>.
\<close>

theorem row_length_none_counterexample:
  "encode [116] [[PStr [97, 98, 99]]] [''NONE'']
     = Inr ([116, 0, 1, 1, 0, 0, 97, 98, 99], []) \<and>
   [116, 0, 1, 1, 0, 0, 97, 98, 99] ! 3 + 256 * [116, 0, 1, 1, 0, 0, 97, 98, 99] ! 4
     \<noteq> int (length [97, 98, 99 :: nat])"
  by (simp add: encode_defs bit_arith)

text \<open>
  What the payload loop emits for a row of integers: one element per element under
  U8 and S8, two and four little-endian bytes under the wider formats, each element
  that is not positive taking the offset first. Under the wider formats the masks
  reduce the offset 0 to zero bytes; under U8 and S8 nothing does.
\<close>

lemma unsigned_data_ints:
  "unsigned_data m (map PInt xs) = Inr (map (\<lambda>x. if 0 < x then x else x + m) xs)"
  by (induction xs) simp_all

lemma encode_row_integers:
  assumes "index data i = Inr (map PInt xs)"
  shows "encode_row data i ''U8'' msg lg
           = Inr (msg @ map (\<lambda>x. if 0 < x then x else x + 256) xs, lg)"
    and "encode_row data i ''S8'' msg lg
           = Inr (msg @ map (\<lambda>x. if 0 < x then x else x + 256) xs, lg)"
    and "encode_row data i ''U16'' msg lg
           = Inr (msg @ concat (map (\<lambda>x. bytes16 (if 0 < x then x else x + 65536)) xs), lg)"
    and "encode_row data i ''S16'' msg lg
           = Inr (msg @ concat (map (\<lambda>x. bytes16 (if 0 < x then x else x + 65536)) xs), lg)"
    and "encode_row data i ''U32'' msg lg
           = Inr (msg @ concat (map (\<lambda>x. bytes32 (if 0 < x then x else x + 4294967296)) xs), lg)"
    and "encode_row data i ''S32'' msg lg
           = Inr (msg @ concat (map (\<lambda>x. bytes32 (if 0 < x then x else x + 4294967296)) xs), lg)"
  using assms by (simp_all add: encode_row_def unsigned_data_ints comp_def)

lemma bytes_little_endian:
  "bytes16 x = [x mod 256, x div 256 mod 256]"
  "bytes32 x = [x mod 256, x div 256 mod 256, x div 65536 mod 256, x div 16777216 mod 256]"
  unfolding bytes16_def bytes32_def and_255 byte1 byte2 byte3 by simp_all

lemma bytes_of_offset_zero:
  "bytes16 (0 + 65536) = [0, 0]" "bytes32 (0 + 4294967296) = [0, 0, 0, 0]"
  by (simp_all add: bytes_little_endian)

text \<open>
  C5 at the element 0 of a U8 row: the comparison of line 118 is strict, so 0 takes
  the offset and the message carries 256 where the claim has the byte 0. The same
  happens under S8.
\<close>

theorem publish_u8_zero:
  "encode [116] [[PInt 0]] [''U8''] = Inr ([116, 0, 1, 1, 0, 2, 256], []) \<and>
   encode [116] [[PInt 0]] [''S8''] = Inr ([116, 0, 1, 1, 0, 3, 256], [])"
  by (simp add: encode_defs bit_arith)

section \<open>The claim about FLOAT\<close>

text \<open>
  The loops of \<^verbatim>\<open>publish\<close> and of the decoder over a list of specifiers that is cut
  in two, and the decoder as its header followed by its loop.
\<close>

lemma specifier_codes_append:
  "specifier_codes (xs @ ys) =
     bindE (specifier_codes xs) (\<lambda>a. bindE (specifier_codes ys) (\<lambda>b. Inr (a @ b)))"
proof (induction xs)
  case Nil
  show ?case by (cases "specifier_codes ys") simp_all
next
  case (Cons x xs)
  show ?case
    by (cases "getitem reversed_specifiers x"; cases "specifier_codes xs";
        cases "specifier_codes ys"; simp add: Cons.IH)
qed

lemma specifier_codes_FLOAT: "specifier_codes (''FLOAT'' # post) =
    bindE (specifier_codes post) (\<lambda>b. Inr (8 # b))"
  by (simp add: getitem_def reversed_specifiers_def format_specifiers_def)

lemma encode_rows_concat:
  "encode_rows data i (xs @ ys) msg lg =
     bindE (encode_rows data i xs msg lg) (\<lambda>(m, l). encode_rows data (i + length xs) ys m l)"
proof (induction xs arbitrary: i msg lg)
  case Nil
  show ?case by simp
next
  case (Cons x xs)
  show ?case
    by (cases "encode_row data i x msg lg") (auto simp: Cons.IH)
qed

lemma encode_rows_FLOAT:
  "encode_rows data i (''FLOAT'' # post) msg lg
     = encode_rows data (Suc i) post msg (lg @ [''width not supported: FLOAT''])"
  by (simp add: encode_row_def)

lemma decode_rows_concat:
  "decode_rows topic len (xs @ ys) s =
     bindE (decode_rows topic len xs s) (decode_rows topic len ys)"
proof (induction xs arbitrary: s)
  case Nil
  show ?case by simp
next
  case (Cons x xs)
  show ?case
    by (cases "decode_row topic len x s") (simp_all add: Cons.IH)
qed

lemma decode_rows_FLOAT:
  "decode_rows topic len (''FLOAT'' # behind) (rest, td, lg)
     = decode_rows topic len behind (rest, td, lg @ [''FLOAT not currently supported!''])"
  by (simp add: decode_row_def)

lemma decode_split:
  "decode msg0 td =
     bindE (decode_header msg0) (\<lambda>(topic, dim, len, specifiers, msg4).
     bindE (decode_rows topic len specifiers (msg4, td, [])) (\<lambda>(msg5, td', lg).
       Inr (topic, dim, len, specifiers, td', lg)))"
  by (simp add: decode_def decode_header_def Let_def bindE_def split: sum.splits prod.splits)

lemma encode_with_FLOAT:
  "encode topic data (pre @ ''FLOAT'' # post) =
     bindE (row_length (pre @ ''FLOAT'' # post) data) (\<lambda>n.
     bindE (utf8 topic) (\<lambda>topic_bytes.
     bindE (specifier_codes pre) (\<lambda>codes1.
     bindE (specifier_codes post) (\<lambda>codes2.
     bindE (encode_rows data 0 pre [] []) (\<lambda>(payload1, lg1).
     bindE (encode_rows data (Suc (length pre)) post [] []) (\<lambda>(payload2, lg2).
       Inr (topic_bytes @ [0, int (length data), n AND 255, drop_bit 8 (n AND 65280)]
              @ nibble_bytes (codes1 @ 8 # codes2) @ payload1 @ payload2,
            lg1 @ [''width not supported: FLOAT''] @ lg2)))))))"
proof (cases "row_length (pre @ ''FLOAT'' # post) data")
  case (Inl e)
  then show ?thesis by (simp add: encode_def)
next
  case n: (Inr n)
  show ?thesis
  proof (cases "utf8 topic")
    case (Inl e)
    with n show ?thesis by (simp add: encode_def)
  next
    case tb: (Inr tb)
    let ?h = "tb @ [0, int (length data), n AND 255, drop_bit 8 (n AND 65280)]"
    have pack: "pack_specifiers ?h 0 (pre @ ''FLOAT'' # post) =
        bindE (specifier_codes pre) (\<lambda>c1. bindE (specifier_codes post) (\<lambda>c2.
          Inr (?h @ nibble_bytes (c1 @ 8 # c2))))"
      using pack_specifiers_nibbles [of "pre @ ''FLOAT'' # post"]
      by (cases "specifier_codes pre"; cases "specifier_codes post";
          simp add: specifier_codes_append getitem_def reversed_specifiers_def
            format_specifiers_def)
    have enc: "encode topic data (pre @ ''FLOAT'' # post) =
        bindE (pack_specifiers ?h 0 (pre @ ''FLOAT'' # post))
          (\<lambda>msg. encode_rows data 0 (pre @ ''FLOAT'' # post) msg [])"
      using n tb by (simp add: encode_def)
    show ?thesis
    proof (cases "specifier_codes pre")
      case (Inl e)
      with n tb enc pack show ?thesis by simp
    next
      case c1: (Inr c1)
      show ?thesis
      proof (cases "specifier_codes post")
        case (Inl e)
        with n tb c1 enc pack show ?thesis by simp
      next
        case c2: (Inr c2)
        let ?m = "?h @ nibble_bytes (c1 @ 8 # c2)"
        have rows: "encode_rows data 0 (pre @ ''FLOAT'' # post) ?m [] =
            bindE (encode_rows data 0 pre [] []) (\<lambda>(p1, l1).
            bindE (encode_rows data (Suc (length pre)) post [] []) (\<lambda>(p2, l2).
              Inr (?m @ p1 @ p2, l1 @ [''width not supported: FLOAT''] @ l2)))"
        proof (cases "encode_rows data 0 pre [] []")
          case (Inl e)
          then show ?thesis
            using encode_rows_append [of data 0 pre ?m "[]"]
            by (simp add: encode_rows_concat)
        next
          case (Inr r1)
          obtain p1 l1 where r1: "r1 = (p1, l1)" by (cases r1)
          have a: "encode_rows data 0 pre ?m [] = Inr (?m @ p1, l1)"
            using encode_rows_append [of data 0 pre ?m "[]"] Inr r1 by simp
          have b: "encode_rows data (Suc (length pre)) post (?m @ p1)
                     (l1 @ [''width not supported: FLOAT'']) =
                bindE (encode_rows data (Suc (length pre)) post [] []) (\<lambda>(p2, l2).
                  Inr ((?m @ p1) @ p2, (l1 @ [''width not supported: FLOAT'']) @ l2))"
            by (rule encode_rows_append)
          show ?thesis
            using Inr r1 a b
            by (cases "encode_rows data (Suc (length pre)) post [] []")
               (auto simp: encode_rows_concat encode_row_def)
        qed
        from n tb c1 c2 enc pack rows show ?thesis by simp
      qed
    qed
  qed
qed

text \<open>
  C4, as the source has it. FLOAT makes neither \<^verbatim>\<open>publish\<close> nor the decoder fail.

  \<^verbatim>\<open>publish\<close> with a format list that holds FLOAT, between the specifiers \<open>pre\<close> and
  \<open>post\<close>: the call raises where the row length, the topic, the name of another
  specifier or the row of another specifier raises, and nowhere else. Otherwise it
  returns the frame, which it has pushed to the send queue: the frame holds the code 8
  at the place of FLOAT in the specifier block and no byte for the row of FLOAT (the
  rows behind it are still taken from their own places in the data), and
  \<^verbatim>\<open>width not supported: FLOAT\<close> is logged between the lines of the rows before and behind.

  The decoder on a frame whose header yields specifiers that hold FLOAT, between
  \<open>before\<close> and \<open>behind\<close>: the rows of \<open>before\<close> are decoded; if that raises, the frame
  raises; otherwise \<^verbatim>\<open>FLOAT not currently supported!\<close> is logged, no byte is consumed
  and nothing is stored for FLOAT, and the rows of \<open>behind\<close> are decoded from the very
  bytes that the rows of \<open>before\<close> have left.
\<close>

theorem float_only_logs:
  "publish self topic data (pre @ ''FLOAT'' # post) w =
     bindE
       (bindE (row_length (pre @ ''FLOAT'' # post) data) (\<lambda>n.
        bindE (utf8 topic) (\<lambda>topic_bytes.
        bindE (specifier_codes pre) (\<lambda>codes1.
        bindE (specifier_codes post) (\<lambda>codes2.
        bindE (encode_rows data 0 pre [] []) (\<lambda>(payload1, lg1).
        bindE (encode_rows data (Suc (length pre)) post [] []) (\<lambda>(payload2, lg2).
          Inr (topic_bytes @ [0, int (length data), n AND 255, drop_bit 8 (n AND 65280)]
                 @ nibble_bytes (codes1 @ 8 # codes2) @ payload1 @ payload2,
               lg1 @ [''width not supported: FLOAT''] @ lg2))))))))
       (\<lambda>(msg, lg).
          Inr (msg, w\<lparr>frames := (frames w)(self := push_tx_message msg (frames w self)),
                       logged := logged w @ lg\<rparr>)) \<and>
   (decode_header msg0 = Inr (name, dim, len, before @ ''FLOAT'' # behind, rest) \<longrightarrow>
      decode msg0 td =
        bindE (decode_rows name len before (rest, td, [])) (\<lambda>(rest1, td1, lg1).
        bindE (decode_rows name len behind
                 (rest1, td1, lg1 @ [''FLOAT not currently supported!''])) (\<lambda>(rest2, td2, lg2).
          Inr (name, dim, len, before @ ''FLOAT'' # behind, td2, lg2))))"
proof (intro conjI impI)
  show "publish self topic data (pre @ ''FLOAT'' # post) w =
     bindE
       (bindE (row_length (pre @ ''FLOAT'' # post) data) (\<lambda>n.
        bindE (utf8 topic) (\<lambda>topic_bytes.
        bindE (specifier_codes pre) (\<lambda>codes1.
        bindE (specifier_codes post) (\<lambda>codes2.
        bindE (encode_rows data 0 pre [] []) (\<lambda>(payload1, lg1).
        bindE (encode_rows data (Suc (length pre)) post [] []) (\<lambda>(payload2, lg2).
          Inr (topic_bytes @ [0, int (length data), n AND 255, drop_bit 8 (n AND 65280)]
                 @ nibble_bytes (codes1 @ 8 # codes2) @ payload1 @ payload2,
               lg1 @ [''width not supported: FLOAT''] @ lg2))))))))
       (\<lambda>(msg, lg).
          Inr (msg, w\<lparr>frames := (frames w)(self := push_tx_message msg (frames w self)),
                       logged := logged w @ lg\<rparr>))"
    unfolding publish_def encode_with_FLOAT ..
next
  assume h: "decode_header msg0 = Inr (name, dim, len, before @ ''FLOAT'' # behind, rest)"
  show "decode msg0 td =
        bindE (decode_rows name len before (rest, td, [])) (\<lambda>(rest1, td1, lg1).
        bindE (decode_rows name len behind
                 (rest1, td1, lg1 @ [''FLOAT not currently supported!''])) (\<lambda>(rest2, td2, lg2).
          Inr (name, dim, len, before @ ''FLOAT'' # behind, td2, lg2)))"
  proof (cases "decode_rows name len before (rest, td, [])")
    case (Inl e)
    with h show ?thesis by (simp add: decode_split decode_rows_concat)
  next
    case (Inr r)
    obtain rest1 td1 lg1 where r: "r = (rest1, td1, lg1)" by (cases r)
    with h Inr show ?thesis
      by (simp add: decode_split decode_rows_concat decode_row_def)
  qed
qed

theorem float_only_logs_witness:
  "map_sum id fst
     (publish 0 [116] [[PInt 1], [PInt 2], [PInt 3]] [''U8'', ''FLOAT'', ''S8'']
        (initial_world :: nat world))
     = Inr [116, 0, 3, 1, 0, 130, 3, 1, 3] \<and>
   decode_header [116, 0, 3, 1, 0, 130, 3, 1, 3]
     = Inr ([116], 3, 1, [''U8''] @ ''FLOAT'' # [''S8''], [1, 3]) \<and>
   decode [116, 0, 3, 1, 0, 130, 3, 1, 3] []
     = Inr ([116], 3, 1, [''U8'', ''FLOAT'', ''S8''], [([116], Rows [[1], [3]])],
            [''FLOAT not currently supported!''])"
proof -
  note inst = float_only_logs [of 0 "[116]" "[[PInt 1], [PInt 2], [PInt 3]]" "[''U8'']"
    "[''S8'']" "initial_world :: nat world" "[116, 0, 3, 1, 0, 130, 3, 1, 3]" "[116]" 3 1
    "[''U8'']" "[''S8'']" "[1, 3]" "[]"]
  have h: "decode_header [116, 0, 3, 1, 0, 130, 3, 1, 3]
     = Inr ([116], 3, 1, [''U8''] @ ''FLOAT'' # [''S8''], [1, 3])"
    by (simp add: decode_header_def pop0_def getitem_def format_specifiers_def bit_arith)
  from inst have "map_sum id fst
     (publish 0 [116] [[PInt 1], [PInt 2], [PInt 3]] [''U8'', ''FLOAT'', ''S8'']
        (initial_world :: nat world))
     = Inr [116, 0, 3, 1, 0, 130, 3, 1, 3]"
    by (simp add: encode_defs bit_arith)
  moreover from inst h have "decode [116, 0, 3, 1, 0, 130, 3, 1, 3] []
     = Inr ([116], 3, 1, [''U8'', ''FLOAT'', ''S8''], [([116], Rows [[1], [3]])],
            [''FLOAT not currently supported!''])"
    by (simp add: decode_defs bit_arith)
  ultimately show ?thesis using h by blast
qed

text \<open>
  C4 as stated fails: with the formats FLOAT, U8 \<^verbatim>\<open>publish\<close> returns a frame, and
  that frame is decoded into the row of the U8 specifier; both sides only log.
\<close>

theorem float_counterexample:
  "encode [116] [[PInt 1], [PInt 2]] [''FLOAT'', ''U8'']
     = Inr ([116, 0, 2, 1, 0, 40, 2], [''width not supported: FLOAT'']) \<and>
   decode [116, 0, 2, 1, 0, 40, 2] []
     = Inr ([116], 2, 1, [''FLOAT'', ''U8''], [([116], Rows [[2]])],
            [''FLOAT not currently supported!''])"
  by (simp add: encode_defs decode_defs bit_arith)

section \<open>The claims about the registry and the dispatch\<close>

lemma bindO_simps [simp]:
  "bindO None f = None"
  "bindO (Some (Inl e)) f = Some (Inl e)"
  "bindO (Some (Inr x)) f = f x"
  by (simp_all add: bindO_def)

lemma map_of_self_subscribers:
  "map_of (self_subscribers w self) topic = map_option (lists w) (map_of (subscribers w) topic)"
  by (induction "subscribers w" arbitrary: w) (auto simp: self_subscribers_def map_of_map)

lemmas run_defs =
  receive_def dispatch_def dispatch_key_def pop_def subscribe_def initial_world_def
  numeral_2_eq_2 numeral_3_eq_3


text \<open>
  C8. \<^verbatim>\<open>unsubscribe\<close> on a topic without a callback list fails (the lookup of
  line 53 raises \<^verbatim>\<open>KeyError\<close>, the failure the specification calls NotFound) and
  does not return silently. On a registered topic whose list holds the callback, the
  first matching callback is removed from the list object, and once the list is empty
  the entry of the topic is removed from the registry altogether: the registry then
  has no list for the topic, and has the shortened list otherwise.
\<close>

theorem unsubscribe_behaviour:
  "(map_of (self_subscribers w self) topic = None \<longrightarrow>
      unsubscribe self topic callback w = Inl KeyError) \<and>
   (map_of (subscribers w) topic = Some a \<and> callback \<in> set (lists w a) \<longrightarrow>
      unsubscribe self topic callback w =
        Inr (w\<lparr>lists := (lists w)(a := remove1 callback (lists w a)),
               subscribers :=
                 (if remove1 callback (lists w a) = [] then AList.delete topic (subscribers w)
                  else subscribers w)\<rparr>) \<and>
      (\<forall>w'. unsubscribe self topic callback w = Inr w' \<longrightarrow>
         map_of (self_subscribers w' self) topic =
           (if remove1 callback (lists w a) = [] then None
            else Some (remove1 callback (lists w a))))) \<and>
   map_of (AList.delete topic (subscribers w)) topic = None"
proof (intro conjI impI allI)
  assume "map_of (self_subscribers w self) topic = None"
  then show "unsubscribe self topic callback w = Inl KeyError"
    by (simp add: map_of_self_subscribers unsubscribe_def getitem_def)
next
  assume h: "map_of (subscribers w) topic = Some a \<and> callback \<in> set (lists w a)"
  then have ne: "lists w a \<noteq> []" by auto
  from h ne show u: "unsubscribe self topic callback w =
        Inr (w\<lparr>lists := (lists w)(a := remove1 callback (lists w a)),
               subscribers :=
                 (if remove1 callback (lists w a) = [] then AList.delete topic (subscribers w)
                  else subscribers w)\<rparr>)"
    by (simp add: unsubscribe_def getitem_def)
  fix w'
  assume "unsubscribe self topic callback w = Inr w'"
  with u h show "map_of (self_subscribers w' self) topic =
           (if remove1 callback (lists w a) = [] then None
            else Some (remove1 callback (lists w a)))"
    by (auto simp: map_of_self_subscribers AList.delete_conv')
next
  show "map_of (AList.delete topic (subscribers w)) topic = None"
    by (simp add: AList.delete_conv')
qed

theorem unsubscribe_behaviour_witness:
  "map_of (self_subscribers (initial_world :: nat world) 0) [116] = None \<and>
   unsubscribe 0 [116] 7 (initial_world :: nat world) = Inl KeyError \<and>
   map_of (subscribers (subscribe 0 [116] 7 (initial_world :: nat world))) [116] = Some 0 \<and>
   7 \<in> set (lists (subscribe 0 [116] 7 (initial_world :: nat world)) 0) \<and>
   map_sum id (\<lambda>w. self_subscribers w 0)
     (unsubscribe 0 [116] 7 (subscribe 0 [116] 7 (initial_world :: nat world))) = Inr [] \<and>
   map_sum id (\<lambda>w. self_subscribers w 0)
     (unsubscribe 0 [116] 7 (subscribe 0 [116] 8 (subscribe 0 [116] 7 (initial_world :: nat world))))
     = Inr [([116], [8])]"
proof -
  let ?w = "subscribe 0 [116] 7 (initial_world :: nat world)"
  let ?w2 = "subscribe 0 [116] 8 ?w"
  have a: "map_of (self_subscribers (initial_world :: nat world) 0) [116] = None"
    by (simp add: initial_world_def self_subscribers_def)
  have b: "map_of (subscribers ?w) [116] = Some 0"
    by (simp add: initial_world_def subscribe_def)
  have c: "7 \<in> set (lists ?w 0)"
    by (simp add: initial_world_def subscribe_def)
  have b2: "map_of (subscribers ?w2) [116] = Some 0"
    by (simp add: initial_world_def subscribe_def)
  have c2: "7 \<in> set (lists ?w2 0)"
    by (simp add: initial_world_def subscribe_def)
  from unsubscribe_behaviour [of "initial_world :: nat world" 0 "[116]" 7] a
  have d: "unsubscribe 0 [116] 7 (initial_world :: nat world) = Inl KeyError" by blast
  from unsubscribe_behaviour [of ?w 0 "[116]" 7 0] b c
  have "unsubscribe 0 [116] 7 ?w =
        Inr (?w\<lparr>lists := (lists ?w)(0 := remove1 7 (lists ?w 0)),
               subscribers :=
                 (if remove1 7 (lists ?w 0) = [] then AList.delete [116] (subscribers ?w)
                  else subscribers ?w)\<rparr>)" by blast
  then have e: "map_sum id (\<lambda>w. self_subscribers w 0) (unsubscribe 0 [116] 7 ?w) = Inr []"
    by (simp add: initial_world_def subscribe_def self_subscribers_def)
  from unsubscribe_behaviour [of ?w2 0 "[116]" 7 0] b2 c2
  have "unsubscribe 0 [116] 7 ?w2 =
        Inr (?w2\<lparr>lists := (lists ?w2)(0 := remove1 7 (lists ?w2 0)),
               subscribers :=
                 (if remove1 7 (lists ?w2 0) = [] then AList.delete [116] (subscribers ?w2)
                  else subscribers ?w2)\<rparr>)" by blast
  then have f: "map_sum id (\<lambda>w. self_subscribers w 0) (unsubscribe 0 [116] 7 ?w2)
     = Inr [([116], [8])]"
    by (simp add: initial_world_def subscribe_def self_subscribers_def)
  from a b c d e f show ?thesis by blast
qed





section \<open>The claims about shared state and the loop\<close>

lemma run_frames_append:
  "run_frames call fuel (xs @ ys) s = bindO (run_frames call fuel xs s) (run_frames call fuel ys)"
proof (induction xs arbitrary: s)
  case Nil
  show ?case by simp
next
  case (Cons x xs)
  show ?case
  proof (cases "receive call fuel x s")
    case None
    then show ?thesis by simp
  next
    case (Some r)
    then show ?thesis by (cases r) (simp_all add: Cons.IH)
  qed
qed

lemma first_zero_absent: "0 \<notin> set msg \<Longrightarrow> first_zero i msg = 0"
  by (induction msg arbitrary: i) auto




text \<open>
  C2, as the source has it. \<^verbatim>\<open>run\<close> catches nothing: when the frames before a
  frame have been processed and that frame makes the decoder raise, the exception
  ends the loop, whatever is queued behind the frame and whatever the callbacks do.
\<close>

theorem decode_failure_ends_loop:
  assumes "run_frames call fuel before s = Some (Inr (w1, tr1))"
    and "decode msg (topical_data w1) = Inl e"
  shows "receive call fuel msg (w1, tr1) = Some (Inl e) \<and>
         run_frames call fuel (before @ msg # behind) s = Some (Inl e)"
  using assms by (simp add: run_frames_append receive_def)

theorem decode_failure_ends_loop_witness:
  "decode [65] [] = Inl IndexError \<and>
   final_store 0 (run_frames only_reads 2 [[116, 0, 1, 1, 0, 2, 5]]
     (subscribe 0 [116] (7::nat) initial_world, [])) = Some (Inr []) \<and>
   run_frames only_reads 2 ([[116, 0, 1, 1, 0, 2, 5]] @ [65] # [[116, 0, 1, 1, 0, 2, 6]])
     (subscribe 0 [116] (7::nat) initial_world, []) = Some (Inl IndexError)"
proof -
  let ?w = "subscribe 0 [116] (7::nat) initial_world"
  have d: "decode [65] [] = Inl IndexError"
    by (simp add: decode_defs)
  obtain w1 tr1 where w1: "run_frames only_reads 2 [[116, 0, 1, 1, 0, 2, 5]] (?w, [])
      = Some (Inr (w1, tr1))"
    and td: "topical_data w1 = []"
    by (simp add: run_defs decode_defs bit_arith only_reads_def)
  from d td have "decode [65] (topical_data w1) = Inl IndexError" by simp
  from decode_failure_ends_loop [OF w1 this, of "[[116, 0, 1, 1, 0, 2, 6]]"]
  have r: "run_frames only_reads 2 ([[116, 0, 1, 1, 0, 2, 5]] @ [65] # [[116, 0, 1, 1, 0, 2, 6]])
     (?w, []) = Some (Inl IndexError)" by simp
  from w1 td have "final_store 0 (run_frames only_reads 2 [[116, 0, 1, 1, 0, 2, 5]] (?w, []))
     = Some (Inr [])"
    by (simp add: final_store_def self_topical_data_def)
  with d r show ?thesis by blast
qed

text \<open>
  C2 as stated fails: the frame \<^verbatim>\<open>[65]\<close> raises \<^verbatim>\<open>IndexError\<close> and the frame
  queued behind it, which alone is decoded and dispatched to the subscriber, is
  never reached.
\<close>

theorem decode_failure_counterexample:
  "run_frames only_reads 2 [[65], [116, 0, 1, 1, 0, 2, 5]]
     (subscribe 0 [116] (7::nat) initial_world, []) = Some (Inl IndexError) \<and>
   observed 0 [116]
     (run_frames only_reads 2 [[116, 0, 1, 1, 0, 2, 5]] (subscribe 0 [116] (7::nat) initial_world, []))
     = Some (Inr [(7, Inr (Rows [[5]]))])"
  by (simp add: run_defs decode_defs bit_arith only_reads_def observed_def get_data_def getitem_def)

text \<open>
  C3, as the source has it. A frame without a 0 leaves \<^verbatim>\<open>zero_index\<close> at 0: the
  topic is the empty string, the first element is dropped, and the rest is parsed as
  \<^verbatim>\<open>dim\<close>, length, specifiers and payload, exactly as for the frame whose first
  element is replaced by 0. The loop treats it like any other frame.
\<close>

theorem no_terminator_empty_topic:
  assumes "0 \<notin> set msg"
  shows "decode msg td = decode (0 # tl msg) td \<and>
         (\<forall>r. decode msg td = Inr r \<longrightarrow> fst r = []) \<and>
         receive call fuel msg s = receive call fuel (0 # tl msg) s \<and>
         run_frames call fuel (msg # rest) s = run_frames call fuel ((0 # tl msg) # rest) s"
proof -
  have z: "first_zero 0 msg = 0" by (rule first_zero_absent [OF assms])
  have d: "decode msg td = decode (0 # tl msg) td" for td
    by (simp add: decode_def z drop_Suc)
  have t: "\<forall>r. decode msg td = Inr r \<longrightarrow> fst r = []"
    by (auto simp: decode_def z bindE_eq_Inr)
  from d t show ?thesis by (simp add: receive_def)
qed

theorem no_terminator_empty_topic_witness:
  "0 \<notin> set [65, 1, 1, 1, 2, 7 :: int] \<and>
   decode [65, 1, 1, 1, 2, 7] [] = decode [0, 1, 1, 1, 2, 7] [] \<and>
   decode [0, 1, 1, 1, 2, 7] [] = Inr ([], 1, 257, [''U8''], [([], Rows [[7]])], [])"
proof -
  have z: "0 \<notin> set [65, 1, 1, 1, 2, 7 :: int]" by simp
  have d: "decode [0, 1, 1, 1, 2, 7] [] = Inr ([], 1, 257, [''U8''], [([], Rows [[7]])], [])"
    by (simp add: decode_defs bit_arith)
  from no_terminator_empty_topic [OF z, of "[]" "only_reads :: nat behaviour" 2
    "(initial_world, [])" "[]"] z d
  show ?thesis by simp
qed

text \<open>
  C3 as stated fails: a frame without a 0 is parsed, under the empty topic, into a
  stored row; and where such a frame does make the decoder raise (here by
  \<^verbatim>\<open>pop\<close> on the emptied message), the loop ends instead of going on.
\<close>

theorem no_terminator_counterexample:
  "0 \<notin> set [65, 1, 1, 1, 2, 7 :: int] \<and>
   decode [65, 1, 1, 1, 2, 7] [] = Inr ([], 1, 257, [''U8''], [([], Rows [[7]])], []) \<and>
   0 \<notin> set [65, 66 :: int] \<and>
   run_frames only_reads 2 [[65, 66], [116, 0, 1, 1, 0, 2, 5]]
     (subscribe 0 [116] (7::nat) initial_world, []) = Some (Inl IndexError)"
  by (simp add: run_defs decode_defs bit_arith)

section \<open>The round trip through the encoder and the decoder\<close>

lemma utf8_ascii: "\<forall>c \<in> set s. c < 128 \<Longrightarrow> utf8 s = Inr (map int s)"
  by (induction s) (simp_all add: utf8_char_def)

lemma join_chr_ascii: "\<forall>c \<in> set s. c < 128 \<Longrightarrow> join_chr (map int s) = Inr s"
  by (induction s) simp_all

lemma first_zero_topic:
  "\<forall>c \<in> set topic. 0 < c \<Longrightarrow> first_zero i (map int topic @ 0 # rest) = i + length topic"
  by (induction topic arbitrary: i) simp_all

lemma decode_ascii_frame:
  assumes "\<forall>c \<in> set topic. 0 < c \<and> c < 128"
  shows "decode (map int topic @ 0 # dim # lo # hi # rest) td =
     bindE (unpack_specifiers 0 dim rest []) (\<lambda>(specifiers, msg4).
     bindE (decode_rows topic (lo + hi * 256) specifiers (msg4, td, [])) (\<lambda>(msg5, td', lg).
       Inr (topic, dim, lo + hi * 256, specifiers, td', lg)))"
proof -
  have z: "first_zero 0 (map int topic @ 0 # dim # lo # hi # rest) = length topic"
    using assms first_zero_topic [of topic 0] by simp
  have j: "join_chr (map int topic) = Inr topic"
    using assms by (simp add: join_chr_ascii)
  show ?thesis
    by (simp add: decode_def z j pop0_def)
qed

lemma mod_65536_split: "(y::int) mod 65536 = y mod 256 + (y div 256 mod 256) * 256"
proof -
  have "y mod (256 * 256) = 256 * (y div 256 mod 256) + y mod 256"
    by (rule zmod_zmult2_eq) simp
  then show ?thesis by simp
qed

lemma combine32_bytes32: "combine32 (bytes32 x) = Inr [x mod 4294967296]"
proof -
  have "x mod (65536 * 65536) = 65536 * (x div 65536 mod 65536) + x mod 65536"
    by (rule zmod_zmult2_eq) simp
  then have top: "x mod 4294967296 = 65536 * (x div 65536 mod 65536) + x mod 65536"
    by simp
  have "x div (65536 * 256) = x div 65536 div 256"
    by (rule zdiv_zmult2_eq) simp
  then have d: "x div 65536 div 256 = x div 16777216" by simp
  have hi: "x div 65536 mod 65536 = x div 65536 mod 256 + (x div 16777216 mod 256) * 256"
    using mod_65536_split [of "x div 65536"] d by simp
  have lo: "x mod 65536 = x mod 256 + (x div 256 mod 256) * 256"
    by (rule mod_65536_split)
  from top hi lo have "x mod 4294967296 =
      x mod 256 + (x div 256 mod 256) * 256 + (x div 65536 mod 256) * 65536
        + (x div 16777216 mod 256) * 16777216"
    by linarith
  moreover have "combine32 (bytes32 x) =
      Inr [x mod 256 + (x div 256 mod 256) * 256 + (x div 65536 mod 256) * 65536
        + (x div 16777216 mod 256) * 16777216]"
    unfolding bytes32_def and_255 byte1 byte2 byte3 by simp
  ultimately show ?thesis by (simp only:)
qed


lemma combine16_bytes16: "combine16 (bytes16 x) = Inr [x mod 65536]"
  unfolding bytes16_def and_255 byte1 by (simp add: mod_65536_split)

lemma length_bytes16 [simp]: "length (bytes16 x) = 2"
  by (simp add: bytes16_def)

lemma length_bytes32 [simp]: "length (bytes32 x) = 4"
  by (simp add: bytes32_def)

lemmas encode_one =
  encode_def row_length_def encode_row_def index_def getitem_def reversed_specifiers_def
  format_specifiers_def utf8_ascii bit_arith

lemmas decode_one =
  decode_ascii_frame decode_row_def getitem_def format_specifiers_def slice_to_def slice_from_def
  ensure_rows_def append_row_def combine16_bytes16 combine32_bytes32 join_chr_ascii bit_arith

lemma mod_wrap:
  assumes "- m \<le> v" and "v < 0"
  shows "v mod m = v + (m::int)"
proof -
  from assms have "0 \<le> v + m" and "v + m < m" by simp_all
  then have "(v + m) mod m = v + m" by (rule mod_pos_pos_trivial)
  then show ?thesis by simp
qed

lemma roundtrip_U8:
  assumes "\<forall>c \<in> set topic. 0 < c \<and> c < 128" and "0 < v" and "v \<le> 255"
  shows "\<exists>msg. encode topic [[PInt v]] [''U8''] = Inr (msg, []) \<and>
           decode msg [] = Inr (topic, 1, 1, [''U8''], [(topic, Rows [[v]])], [])"
proof -
  from assms have "encode topic [[PInt v]] [''U8''] = Inr (map int topic @ 0 # 1 # 1 # 0 # 2 # [v], [])"
    by (simp add: encode_one)
  moreover from assms have "decode (map int topic @ 0 # 1 # 1 # 0 # 2 # [v]) []
      = Inr (topic, 1, 1, [''U8''], [(topic, Rows [[v]])], [])"
    by (simp add: decode_one)
  ultimately show ?thesis by blast
qed

lemma roundtrip_S8:
  assumes "\<forall>c \<in> set topic. 0 < c \<and> c < 128" and "- 128 \<le> v" and "v \<le> 127"
  shows "\<exists>msg. encode topic [[PInt v]] [''S8''] = Inr (msg, []) \<and>
           decode msg [] = Inr (topic, 1, 1, [''S8''], [(topic, Rows [[v]])], [])"
proof -
  let ?x = "if v > 0 then v else v + 256"
  from assms have "encode topic [[PInt v]] [''S8''] = Inr (map int topic @ 0 # 1 # 1 # 0 # 3 # [?x], [])"
    by (simp add: encode_one)
  moreover from assms have "decode (map int topic @ 0 # 1 # 1 # 0 # 3 # [?x]) []
      = Inr (topic, 1, 1, [''S8''], [(topic, Rows [[v]])], [])"
    by (simp add: decode_one)
  ultimately show ?thesis by blast
qed

lemma roundtrip_U16:
  assumes "\<forall>c \<in> set topic. 0 < c \<and> c < 128" and "0 \<le> v" and "v \<le> 65535"
  shows "\<exists>msg. encode topic [[PInt v]] [''U16''] = Inr (msg, []) \<and>
           decode msg [] = Inr (topic, 1, 1, [''U16''], [(topic, Rows [[v]])], [])"
proof -
  let ?x = "if v > 0 then v else v + 65536"
  from assms have "encode topic [[PInt v]] [''U16'']
      = Inr (map int topic @ 0 # 1 # 1 # 0 # 4 # bytes16 ?x, [])"
    by (simp add: encode_one)
  moreover from assms have "?x mod 65536 = v" by auto
  then have "decode (map int topic @ 0 # 1 # 1 # 0 # 4 # bytes16 ?x) []
      = Inr (topic, 1, 1, [''U16''], [(topic, Rows [[v]])], [])"
    using assms(1) by (simp add: decode_one)
  ultimately show ?thesis by blast
qed

lemma roundtrip_S16:
  assumes "\<forall>c \<in> set topic. 0 < c \<and> c < 128" and "- 32768 \<le> v" and "v \<le> 32767"
  shows "\<exists>msg. encode topic [[PInt v]] [''S16''] = Inr (msg, []) \<and>
           decode msg [] = Inr (topic, 1, 1, [''S16''], [(topic, Rows [[v]])], [])"
proof -
  let ?x = "if v > 0 then v else v + 65536"
  let ?y = "?x mod 65536"
  from assms have "encode topic [[PInt v]] [''S16'']
      = Inr (map int topic @ 0 # 1 # 1 # 0 # 5 # bytes16 ?x, [])"
    by (simp add: encode_one)
  moreover have "(if ?y > 32767 then ?y - 65536 else ?y) = v"
  proof (cases "v < 0")
    case True
    with assms mod_wrap [of 65536 v] show ?thesis by simp
  next
    case False
    with assms show ?thesis by auto
  qed
  then have "decode (map int topic @ 0 # 1 # 1 # 0 # 5 # bytes16 ?x) []
      = Inr (topic, 1, 1, [''S16''], [(topic, Rows [[v]])], [])"
    using assms(1) by (simp add: decode_one)
  ultimately show ?thesis by blast
qed


lemma roundtrip_U32:
  assumes "\<forall>c \<in> set topic. 0 < c \<and> c < 128" and "0 \<le> v" and "v \<le> 4294967295"
  shows "\<exists>msg. encode topic [[PInt v]] [''U32''] = Inr (msg, []) \<and>
           decode msg [] = Inr (topic, 1, 1, [''U32''], [(topic, Rows [[v]])], [])"
proof -
  let ?x = "if v > 0 then v else v + 4294967296"
  from assms have "encode topic [[PInt v]] [''U32'']
      = Inr (map int topic @ 0 # 1 # 1 # 0 # 6 # bytes32 ?x, [])"
    by (simp add: encode_one)
  moreover from assms have "?x mod 4294967296 = v" by auto
  then have "decode (map int topic @ 0 # 1 # 1 # 0 # 6 # bytes32 ?x) []
      = Inr (topic, 1, 1, [''U32''], [(topic, Rows [[v]])], [])"
    using assms(1) by (simp add: decode_one)
  ultimately show ?thesis by blast
qed

lemma roundtrip_S32:
  assumes "\<forall>c \<in> set topic. 0 < c \<and> c < 128" and "- 2147483648 < v" and "v \<le> 2147483647"
  shows "\<exists>msg. encode topic [[PInt v]] [''S32''] = Inr (msg, []) \<and>
           decode msg [] = Inr (topic, 1, 1, [''S32''], [(topic, Rows [[v]])], [])"
proof -
  let ?x = "if v > 0 then v else v + 4294967296"
  let ?y = "?x mod 4294967296"
  from assms have "encode topic [[PInt v]] [''S32'']
      = Inr (map int topic @ 0 # 1 # 1 # 0 # 7 # bytes32 ?x, [])"
    by (simp add: encode_one)
  moreover have "(if ?y > 2147483648 then ?y - 4294967296 else ?y) = v"
  proof (cases "v < 0")
    case True
    with assms mod_wrap [of 4294967296 v] show ?thesis by simp
  next
    case False
    with assms show ?thesis by auto
  qed
  then have "decode (map int topic @ 0 # 1 # 1 # 0 # 7 # bytes32 ?x) []
      = Inr (topic, 1, 1, [''S32''], [(topic, Rows [[v]])], [])"
    using assms(1) by (simp add: decode_one)
  ultimately show ?thesis by blast
qed

lemma roundtrip_STRING:
  assumes "\<forall>c \<in> set topic. 0 < c \<and> c < 128" and "\<forall>c \<in> set s. c < 128"
    and "length s < 65536"
  shows "\<exists>msg. encode topic [[PStr s]] [''STRING''] = Inr (msg, []) \<and>
           decode msg [] = Inr (topic, 1, int (length s), [''STRING''], [(topic, Text s)], [])"
proof -
  let ?n = "int (length s)"
  from assms have "encode topic [[PStr s]] [''STRING'']
      = Inr (map int topic @ 0 # 1 # (?n mod 256) # (?n div 256 mod 256) # 1 # map int s, [])"
    by (simp add: encode_one del: drop_bit_and)
  moreover from assms have "?n mod 256 + (?n div 256 mod 256) * 256 = ?n"
    using mod_65536_split [of ?n] by simp
  then have "decode (map int topic @ 0 # 1 # (?n mod 256) # (?n div 256 mod 256) # 1 # map int s) []
      = Inr (topic, 1, ?n, [''STRING''], [(topic, Text s)], [])"
    using assms(1,2) by (simp add: decode_one)
  ultimately show ?thesis by blast
qed

lemma roundtrip_NONE:
  assumes "\<forall>c \<in> set topic. 0 < c \<and> c < 128" and "\<forall>c \<in> set s. c < 128"
  shows "\<exists>msg. encode topic [[PStr s]] [''NONE''] = Inr (msg, []) \<and>
           decode msg [] = Inr (topic, 1, 1, [''NONE''], [],
                                [''unrecognized message type: NONE''])"
proof -
  from assms have "encode topic [[PStr s]] [''NONE'']
      = Inr (map int topic @ 0 # 1 # 1 # 0 # 0 # map int s, [])"
    by (simp add: encode_one)
  moreover from assms have "decode (map int topic @ 0 # 1 # 1 # 0 # 0 # map int s) []
      = Inr (topic, 1, 1, [''NONE''], [], [''unrecognized message type: NONE''])"
    by (simp add: decode_one)
  ultimately show ?thesis by blast
qed

text \<open>
  C1, as the source has it. The topic is a string of ASCII characters without NUL,
  and the frame is decoded into an empty \<^verbatim>\<open>topical_data\<close>. For the six integer
  formats and every value of the format's range, the frame that \<^verbatim>\<open>publish\<close>
  builds for the single row \<^verbatim>\<open>[[v]]\<close> decodes to the topic, \<^verbatim>\<open>dim\<close> 1, row length 1,
  the same specifier and the row \<^verbatim>\<open>[[v]]\<close>; this includes - 1, - 128 and 127 under S8,
  - 32768 and 32767 under S16, 2147483647 under S32, and 0 under S8, U16, S16, U32
  and S32. The value 0 under U8 and the value - 2147483648 under S32 are left out of
  the statement. Under STRING the string of ASCII characters \<open>s\<close> comes back as the
  stored text itself, with the row length \<open>len(s)\<close>. Under NONE the decoder stores
  no value: it logs the specifier as unrecognised.
\<close>

theorem roundtrip_single_value:
  assumes "\<forall>c \<in> set topic. 0 < c \<and> c < 128"
  shows "(representable fmt v \<and> \<not> (fmt = ''U8'' \<and> v = 0)
            \<and> \<not> (fmt = ''S32'' \<and> v = - 2147483648) \<longrightarrow>
            (\<exists>msg. encode topic [[PInt v]] [fmt] = Inr (msg, []) \<and>
                   decode msg [] = Inr (topic, 1, 1, [fmt], [(topic, Rows [[v]])], []))) \<and>
         ((\<forall>c \<in> set s. c < 128) \<and> length s < 65536 \<longrightarrow>
            (\<exists>msg. encode topic [[PStr s]] [''STRING''] = Inr (msg, []) \<and>
                   decode msg [] = Inr (topic, 1, int (length s), [''STRING''],
                                        [(topic, Text s)], []))) \<and>
         ((\<forall>c \<in> set s. c < 128) \<longrightarrow>
            (\<exists>msg. encode topic [[PStr s]] [''NONE''] = Inr (msg, []) \<and>
                   decode msg [] = Inr (topic, 1, 1, [''NONE''], [],
                                        [''unrecognized message type: NONE''])))"
proof (intro conjI impI)
  assume r: "representable fmt v \<and> \<not> (fmt = ''U8'' \<and> v = 0)
            \<and> \<not> (fmt = ''S32'' \<and> v = - 2147483648)"
  then have rep: "representable fmt v"
    and n8: "fmt = ''U8'' \<Longrightarrow> v \<noteq> 0"
    and n32: "fmt = ''S32'' \<Longrightarrow> v \<noteq> - 2147483648"
    by blast+
  from rep show "\<exists>msg. encode topic [[PInt v]] [fmt] = Inr (msg, []) \<and>
               decode msg [] = Inr (topic, 1, 1, [fmt], [(topic, Rows [[v]])], [])"
    unfolding representable_def
  proof (elim disjE conjE)
    assume f: "fmt = ''U8''" and "0 \<le> v" and hi: "v \<le> 255"
    with n8 have "0 < v" by force
    from roundtrip_U8 [OF assms this hi] f show ?thesis by (simp only:)
  next
    assume f: "fmt = ''S8''" and lo: "- 128 \<le> v" and hi: "v \<le> 127"
    from roundtrip_S8 [OF assms lo hi] f show ?thesis by (simp only:)
  next
    assume f: "fmt = ''U16''" and lo: "0 \<le> v" and hi: "v \<le> 65535"
    from roundtrip_U16 [OF assms lo hi] f show ?thesis by (simp only:)
  next
    assume f: "fmt = ''S16''" and lo: "- 32768 \<le> v" and hi: "v \<le> 32767"
    from roundtrip_S16 [OF assms lo hi] f show ?thesis by (simp only:)
  next
    assume f: "fmt = ''U32''" and lo: "0 \<le> v" and hi: "v \<le> 4294967295"
    from roundtrip_U32 [OF assms lo hi] f show ?thesis by (simp only:)
  next
    assume f: "fmt = ''S32''" and "- 2147483648 \<le> v" and hi: "v \<le> 2147483647"
    with n32 have "- 2147483648 < v" by force
    from roundtrip_S32 [OF assms this hi] f show ?thesis by (simp only:)
  qed
next
  assume "(\<forall>c \<in> set s. c < 128) \<and> length s < 65536"
  with roundtrip_STRING [OF assms, of s]
  show "\<exists>msg. encode topic [[PStr s]] [''STRING''] = Inr (msg, []) \<and>
          decode msg [] = Inr (topic, 1, int (length s), [''STRING''], [(topic, Text s)], [])"
    by simp
next
  assume "\<forall>c \<in> set s. c < 128"
  with roundtrip_NONE [OF assms, of s]
  show "\<exists>msg. encode topic [[PStr s]] [''NONE''] = Inr (msg, []) \<and>
          decode msg [] = Inr (topic, 1, 1, [''NONE''], [],
                               [''unrecognized message type: NONE''])"
    by simp
qed

theorem roundtrip_single_value_witness:
  "representable ''S8'' (- 1) \<and> length [97, 98 :: nat] < 65536 \<and>
   (\<exists>msg. encode [116] [[PInt (- 1)]] [''S8''] = Inr (msg, []) \<and>
      decode msg [] = Inr ([116], 1, 1, [''S8''], [([116], Rows [[- 1]])], [])) \<and>
   (\<exists>msg. encode [116] [[PStr [97, 98]]] [''STRING''] = Inr (msg, []) \<and>
      decode msg [] = Inr ([116], 1, 2, [''STRING''], [([116], Text [97, 98])], [])) \<and>
   (\<exists>msg. encode [116] [[PStr [97, 98]]] [''NONE''] = Inr (msg, []) \<and>
      decode msg [] = Inr ([116], 1, 1, [''NONE''], [],
                           [''unrecognized message type: NONE'']))"
proof -
  have t: "\<forall>c \<in> set [116::nat]. 0 < c \<and> c < 128" by simp
  have r: "representable ''S8'' (- 1)" by (simp add: representable_def)
  have s: "(\<forall>c \<in> set [97, 98 :: nat]. c < 128) \<and> length [97, 98 :: nat] < 65536" by simp
  from roundtrip_single_value [OF t, of "''S8''" "- 1" "[97, 98]"] t r s
  show ?thesis by simp
qed

text \<open>
  C1 as stated fails: under STRING the row length that comes back is the character
  count 2, not 1, and the value is the text, not a row; under NONE nothing is stored;
  and a topic outside ASCII comes back as the code points of its UTF-8 bytes.
\<close>

theorem roundtrip_counterexample:
  "encode [116] [[PStr [97, 98]]] [''STRING''] = Inr ([116, 0, 1, 2, 0, 1, 97, 98], []) \<and>
   decode [116, 0, 1, 2, 0, 1, 97, 98] []
     = Inr ([116], 1, 2, [''STRING''], [([116], Text [97, 98])], []) \<and>
   encode [116] [[PStr [97]]] [''NONE''] = Inr ([116, 0, 1, 1, 0, 0, 97], []) \<and>
   decode [116, 0, 1, 1, 0, 0, 97] []
     = Inr ([116], 1, 1, [''NONE''], [], [''unrecognized message type: NONE'']) \<and>
   encode [233] [[PInt 1]] [''U8''] = Inr ([195, 169, 0, 1, 1, 0, 2, 1], []) \<and>
   decode [195, 169, 0, 1, 1, 0, 2, 1] []
     = Inr ([195, 169], 1, 1, [''U8''], [([195, 169], Rows [[1]])], [])"
  by (simp add: encode_defs decode_defs bit_arith)

text \<open>
  The two values left out of the round trip: 0 under U8 is sent as 256 and comes
  back as 256; - 2147483648 under S32 is sent correctly and comes back as
  2147483648, the threshold of line 272 being 2147483648.
\<close>

lemma roundtrip_slips:
  "encode [116] [[PInt 0]] [''U8''] = Inr ([116, 0, 1, 1, 0, 2, 256], []) \<and>
   decode [116, 0, 1, 1, 0, 2, 256] []
     = Inr ([116], 1, 1, [''U8''], [([116], Rows [[256]])], []) \<and>
   encode [116] [[PInt (- 2147483648)]] [''S32'']
     = Inr ([116, 0, 1, 1, 0, 7, 0, 0, 0, 128], []) \<and>
   decode [116, 0, 1, 1, 0, 7, 0, 0, 0, 128] []
     = Inr ([116], 1, 1, [''S32''], [([116], Rows [[2147483648]])], [])"
  by (simp add: encode_defs decode_defs bit_arith)

end
